theory Spec2Isabelle
  imports Complex_Main
begin

section \<open>The ingestion task of \<^verbatim>\<open>src/app/tasks/ingestion.py\<close>\<close>

text \<open>
  The module holds one Celery task, \<^verbatim>\<open>process_url_ingestion(self, job_id, url)\<close>. It starts a
  thread that runs the nested function \<^verbatim>\<open>_work\<close>, joins it with a timeout of 300 seconds, and
  handles every failure in one \<^verbatim>\<open>except\<close> block: report the job as failed, then retry or
  re-raise.

  Everything \<^verbatim>\<open>_work\<close> calls lives outside the module (the database helper, the content
  processor, the embedding client, the vector store, the standard library's \<^verbatim>\<open>UUID\<close>). Those
  collaborators are a parameter of the model, the record \<open>env\<close>: each call answers with the
  time it took and either a value or the exception it raised.
\<close>

subsection \<open>Exceptions, values and collaborator replies\<close>

text \<open>
  An exception is its class name and its message (\<^verbatim>\<open>str(exc)\<close>). Only subclasses of
  \<^verbatim>\<open>Exception\<close> are modelled: they are what \<^verbatim>\<open>except Exception\<close> catches.
\<close>

datatype exn = Exn (exn_class: string) (exn_str: string)

datatype uuid = UUID (uuid_hex: string)

type_synonym vector = "real list"

text \<open>A reply: seconds the call took, then the exception raised or the value returned.\<close>

type_synonym 'a reply = "nat \<times> (exn + 'a)"

text \<open>
  The keyword arguments of \<^verbatim>\<open>update_job_status_sync\<close>; a field that a call does not pass
  is \<open>None\<close>. \<^verbatim>\<open>datetime.utcnow()\<close> is the model's clock: seconds since the thread started.
\<close>

record status_fields =
  started_at :: "nat option"
  completed_at :: "nat option"
  chunk_count :: "nat option"
  error_message :: "string option"
  error_traceback :: "string option"

definition no_fields :: status_fields where
  "no_fields = \<lparr>started_at = None, completed_at = None, chunk_count = None,
     error_message = None, error_traceback = None\<rparr>"

record env =
  uuid_parse :: "string \<Rightarrow> exn + uuid"
  format_exc :: "exn \<Rightarrow> string"
  update_job_status_sync :: "uuid \<Rightarrow> string \<Rightarrow> status_fields \<Rightarrow> unit reply"
  fetch_url_content_sync :: "string \<Rightarrow> string reply"
  clean_html :: "string \<Rightarrow> string reply"
  chunk_text :: "string \<Rightarrow> int \<Rightarrow> int \<Rightarrow> string list reply"
  CHUNK_SIZE :: int
  CHUNK_OVERLAP :: int
  GeminiEmbeddings :: "unit reply"
  embed_documents :: "string list \<Rightarrow> vector list reply"
  QdrantStore :: "unit reply"
  create_collection_if_not_exists :: "unit reply"
  add_documents :: "string list \<Rightarrow> vector list \<Rightarrow> (string \<times> string) list \<Rightarrow> string \<Rightarrow> int reply"

subsection \<open>Events of a thread\<close>

text \<open>
  A thread's state is its clock and the list of what it has done so far, oldest first. A
  collaborator call is stamped with the time at which it ended and with whether it
  returned (\<open>True\<close>) or raised (\<open>False\<close>); a log line takes no time.
\<close>

datatype call =
    UpdateJobStatus uuid string status_fields
  | FetchUrl string
  | CleanHtml string
  | ChunkText string int int
  | NewEmbedder
  | EmbedDocuments "string list"
  | NewStore
  | CreateCollection
  | AddDocuments "string list" "vector list" "(string \<times> string) list" string

datatype event =
    LogInfo nat string
  | LogError nat string
  | Called nat call bool

fun stamp :: "event \<Rightarrow> nat" where
  "stamp (LogInfo t m) = t"
| "stamp (LogError t m) = t"
| "stamp (Called t c b) = t"

record tstate =
  clock :: nat
  trace :: "event list"

definition returned :: "exn + 'a \<Rightarrow> bool" where
  "returned r = (case r of Inl e \<Rightarrow> False | Inr x \<Rightarrow> True)"

definition perform :: "call \<Rightarrow> 'a reply \<Rightarrow> tstate \<Rightarrow> (exn + 'a) \<times> tstate" where
  "perform c r s =
     (let t = clock s + fst r
      in (snd r, \<lparr>clock = t, trace = trace s @ [Called t c (returned (snd r))]\<rparr>))"

definition info :: "string \<Rightarrow> tstate \<Rightarrow> (exn + unit) \<times> tstate" where
  "info m s = (Inr (), s\<lparr>trace := trace s @ [LogInfo (clock s) m]\<rparr>)"

definition error :: "string \<Rightarrow> tstate \<Rightarrow> (exn + unit) \<times> tstate" where
  "error m s = (Inr (), s\<lparr>trace := trace s @ [LogError (clock s) m]\<rparr>)"

text \<open>Sequencing: an exception ends the rest of the block, as in Python.\<close>

definition and_then ::
  "(tstate \<Rightarrow> (exn + 'a) \<times> tstate) \<Rightarrow> ('a \<Rightarrow> tstate \<Rightarrow> (exn + 'b) \<times> tstate) \<Rightarrow>
   tstate \<Rightarrow> (exn + 'b) \<times> tstate" where
  "and_then m f s = (case m s of (Inl e, s') \<Rightarrow> (Inl e, s') | (Inr x, s') \<Rightarrow> f x s')"

definition lift :: "exn + 'a \<Rightarrow> tstate \<Rightarrow> (exn + 'a) \<times> tstate" where
  "lift r s = (r, s)"

subsection \<open>The worker: \<^verbatim>\<open>_work\<close> (lines 39 to 79)\<close>

definition batch_size :: nat where
  "batch_size = 100"

text \<open>
  Lines 62 to 67: \<^verbatim>\<open>for i in range(0, len(chunks), batch_size)\<close>, with the slice
  \<^verbatim>\<open>chunks[i : i + batch_size]\<close> and \<^verbatim>\<open>vectors.extend(batch_vecs)\<close>.
\<close>

function embed_loop ::
  "env \<Rightarrow> string list \<Rightarrow> nat \<Rightarrow> vector list \<Rightarrow> tstate \<Rightarrow> (exn + vector list) \<times> tstate" where
  "embed_loop e chunks i vectors s =
     (if i < length chunks then
        (let batch = take batch_size (drop i chunks)
         in case perform (EmbedDocuments batch) (embed_documents e batch) s of
              (Inl x, s') \<Rightarrow> (Inl x, s')
            | (Inr batch_vecs, s') \<Rightarrow> embed_loop e chunks (i + batch_size) (vectors @ batch_vecs) s')
      else (Inr vectors, s))"
  by pat_completeness auto
termination
  by (relation "measure (\<lambda>(e, chunks, i, vectors, s). length chunks - i)")
     (auto simp: batch_size_def)

declare embed_loop.simps [simp del]

record ingest_result =
  job_id :: string
  status :: string
  chunks_added :: int

definition work :: "env \<Rightarrow> string \<Rightarrow> string \<Rightarrow> tstate \<Rightarrow> (exn + ingest_result) \<times> tstate" where
  "work e jid u =
     and_then (info ''Converting job_id to UUID'') (\<lambda>_.
     and_then (lift (uuid_parse e jid)) (\<lambda>jid_uuid.
     and_then (info ''Marking job as processing'') (\<lambda>_.
     and_then (\<lambda>s. perform
         (UpdateJobStatus jid_uuid ''processing'' (no_fields\<lparr>started_at := Some (clock s)\<rparr>))
         (update_job_status_sync e jid_uuid ''processing'' (no_fields\<lparr>started_at := Some (clock s)\<rparr>)) s) (\<lambda>_.
     and_then (info ''Fetching URL content'') (\<lambda>_.
     and_then (perform (FetchUrl u) (fetch_url_content_sync e u)) (\<lambda>html.
     and_then (info ''Cleaning HTML'') (\<lambda>_.
     and_then (perform (CleanHtml html) (clean_html e html)) (\<lambda>text.
     and_then (info ''Chunking text'') (\<lambda>_.
     and_then (perform (ChunkText text (CHUNK_SIZE e) (CHUNK_OVERLAP e))
                 (chunk_text e text (CHUNK_SIZE e) (CHUNK_OVERLAP e))) (\<lambda>chunks.
     and_then (info ''Generating embeddings'') (\<lambda>_.
     and_then (perform NewEmbedder (GeminiEmbeddings e)) (\<lambda>_.
     and_then (embed_loop e chunks 0 []) (\<lambda>vectors.
     and_then (info ''Storing in Qdrant'') (\<lambda>_.
     and_then (perform NewStore (QdrantStore e)) (\<lambda>_.
     and_then (perform CreateCollection (create_collection_if_not_exists e)) (\<lambda>_.
     and_then (perform (AddDocuments chunks vectors [(''source_url'', u)] jid)
                 (add_documents e chunks vectors [(''source_url'', u)] jid)) (\<lambda>added.
     and_then (info ''Marking job as completed'') (\<lambda>_.
     and_then (\<lambda>s. perform
         (UpdateJobStatus jid_uuid ''completed''
            (no_fields\<lparr>chunk_count := Some (length chunks), completed_at := Some (clock s)\<rparr>))
         (update_job_status_sync e jid_uuid ''completed''
            (no_fields\<lparr>chunk_count := Some (length chunks), completed_at := Some (clock s)\<rparr>)) s) (\<lambda>_.
     lift (Inr \<lparr>job_id = jid, status = ''completed'', chunks_added = added\<rparr>))))))))))))))))))))"

subsection \<open>The task: \<^verbatim>\<open>process_url_ingestion\<close> (lines 21 to 123)\<close>

text \<open>
  \<^verbatim>\<open>self\<close>: the decorator sets \<^verbatim>\<open>max_retries=3\<close>; the code reads \<^verbatim>\<open>self.request.retries\<close>
  through \<^verbatim>\<open>hasattr\<close> and \<^verbatim>\<open>getattr\<close> with the default 0.
\<close>

record request =
  retries :: "nat option"

record task =
  max_retries :: nat
  request :: "request option"

definition celery_task :: "request option \<Rightarrow> task" where
  "celery_task r = \<lparr>max_retries = 3, request = r\<rparr>"

text \<open>
  What the caller (Celery) receives: the returned dictionary, the \<^verbatim>\<open>Retry\<close> that
  \<^verbatim>\<open>self.retry(exc=exc, countdown=countdown)\<close> raises, or the exception re-raised by the
  bare \<^verbatim>\<open>raise\<close>.
\<close>

datatype signal =
    Returned ingest_result
  | RetryAfter exn nat
  | Raised exn

definition deadline :: nat where
  "deadline = 300"

definition timeout_error :: exn where
  "timeout_error = Exn ''TimeoutError'' ''Ingestion task timed out''"

text \<open>
  The thread (lines 87 to 96). Python cannot stop a thread: \<^verbatim>\<open>thread.start()\<close> runs
  \<^verbatim>\<open>_work\<close> to its end whatever the main thread does, so the thread's state is that of the
  whole of \<^verbatim>\<open>_work\<close>. \<^verbatim>\<open>thread.join(timeout=300)\<close> gives up after 300 seconds, and
  \<^verbatim>\<open>thread.is_alive()\<close> is then true exactly when the thread ends later than that.
\<close>

definition run_work :: "env \<Rightarrow> string \<Rightarrow> string \<Rightarrow> (exn + ingest_result) \<times> tstate" where
  "run_work e jid u = work e jid u \<lparr>clock = 0, trace = []\<rparr>"

definition is_alive :: "env \<Rightarrow> string \<Rightarrow> string \<Rightarrow> bool" where
  "is_alive e jid u = (deadline < clock (snd (run_work e jid u)))"

text \<open>
  Lines 94 to 104, the body of the \<^verbatim>\<open>try\<close>: what the main thread sees after the join, an
  exception to handle or the result to return.
\<close>

definition attempt :: "env \<Rightarrow> string \<Rightarrow> string \<Rightarrow> exn + ingest_result" where
  "attempt e jid u =
     (if is_alive e jid u then Inl timeout_error
      else case fst (run_work e jid u) of Inl exception \<Rightarrow> Inl exception | Inr result \<Rightarrow> Inr result)"

text \<open>Lines 116 to 123: the decision to retry.\<close>

definition current_retries :: "task \<Rightarrow> nat" where
  "current_retries self =
     (case request self of
        None \<Rightarrow> 0
      | Some rq \<Rightarrow> (case retries rq of None \<Rightarrow> 0 | Some n \<Rightarrow> n))"

definition retry_or_raise :: "task \<Rightarrow> exn \<Rightarrow> tstate \<Rightarrow> signal \<times> tstate" where
  "retry_or_raise self exc s =
     (let retries = current_retries self
      in if retries < max_retries self then
           (let countdown = 60 * (2 ^ retries)
            in (RetryAfter exc countdown, snd (info ''Retrying ingestion task'' s)))
         else (Raised exc, s))"

text \<open>
  Lines 105 to 123, the \<^verbatim>\<open>except\<close> block. The inner \<^verbatim>\<open>try\<close> covers both \<^verbatim>\<open>UUID(job_id)\<close>
  and the write; whatever it raises is logged and dropped.
\<close>

definition on_exception :: "task \<Rightarrow> env \<Rightarrow> string \<Rightarrow> exn \<Rightarrow> tstate \<Rightarrow> signal \<times> tstate" where
  "on_exception self e jid exc s0 =
     (let tb = format_exc e exc;
          s1 = snd (error ''Ingestion task failed'' s0);
          fields = no_fields\<lparr>error_message := Some (exn_str exc), error_traceback := Some tb\<rparr>;
          (r, s2) = and_then (lift (uuid_parse e jid)) (\<lambda>jid_uuid.
                      perform (UpdateJobStatus jid_uuid ''failed'' fields)
                        (update_job_status_sync e jid_uuid ''failed'' fields)) s1;
          s3 = (case r of Inl e2 \<Rightarrow> snd (error ''Failed to persist job failure'' s2) | Inr _ \<Rightarrow> s2)
      in retry_or_raise self exc s3)"

text \<open>
  One invocation. \<open>worker_trace\<close> is everything the thread does, also after the deadline;
  \<open>main_trace\<close> is what the main thread does, which resumes when the thread ends or when the
  join times out, whichever is first.
\<close>

record run =
  signal :: signal
  main_trace :: "event list"
  worker_trace :: "event list"

definition process_url_ingestion :: "task \<Rightarrow> env \<Rightarrow> string \<Rightarrow> string \<Rightarrow> run" where
  "process_url_ingestion self e jid u =
     (let m0 = snd (info ''Starting ingestion task'' \<lparr>clock = 0, trace = []\<rparr>);
          w = snd (run_work e jid u);
          m1 = m0\<lparr>clock := min (clock w) deadline\<rparr>;
          (sig, m2) = (case attempt e jid u of
                         Inr result \<Rightarrow> (Returned result, snd (info ''Ingestion task completed'' m1))
                       | Inl exc \<Rightarrow> on_exception self e jid exc m1)
      in \<lparr>signal = sig, main_trace = trace m2, worker_trace = trace w\<rparr>)"

subsection \<open>Reading a trace\<close>

text \<open>The collaborator calls of a trace, in order, and those of them that raised.\<close>

fun calls :: "event list \<Rightarrow> call list" where
  "calls [] = []"
| "calls (Called t c ok # es) = c # calls es"
| "calls (LogInfo t m # es) = calls es"
| "calls (LogError t m # es) = calls es"

fun failed_calls :: "event list \<Rightarrow> call list" where
  "failed_calls [] = []"
| "failed_calls (Called t c ok # es) = (if ok then failed_calls es else c # failed_calls es)"
| "failed_calls (LogInfo t m # es) = failed_calls es"
| "failed_calls (LogError t m # es) = failed_calls es"

fun error_logs :: "event list \<Rightarrow> string list" where
  "error_logs [] = []"
| "error_logs (LogError t m # es) = m # error_logs es"
| "error_logs (LogInfo t m # es) = error_logs es"
| "error_logs (Called t c ok # es) = error_logs es"

text \<open>
  Modelled from the spec: the StatusStore behind \<^verbatim>\<open>update_job_status_sync\<close>
  (\<^verbatim>\<open>app/database.py\<close> is not among the sources). The spec gives
  \<^verbatim>\<open>StatusStore.update(job_id, status, fields...) -> void | fails(PersistenceError)\<close>: a
  write that returns is applied, one that raises is not. The persisted status of a job is
  the last write applied to it.
\<close>

fun status_writes :: "event list \<Rightarrow> (uuid \<times> string \<times> status_fields) list" where
  "status_writes [] = []"
| "status_writes (Called t (UpdateJobStatus j st f) ok # es) =
     (if ok then (j, st, f) # status_writes es else status_writes es)"
| "status_writes (e # es) = status_writes es"

definition persisted :: "event list \<Rightarrow> uuid \<Rightarrow> (string \<times> status_fields) option" where
  "persisted es j =
     (case rev (filter (\<lambda>w. fst w = j) (status_writes es)) of
        [] \<Rightarrow> None
      | w # ws \<Rightarrow> Some (snd w))"

text \<open>
  Writes to the StatusStore or the VectorStore that were applied after the deadline, each
  with the time at which it ended.
\<close>

fun late_writes :: "event list \<Rightarrow> (nat \<times> call) list" where
  "late_writes [] = []"
| "late_writes (Called t (UpdateJobStatus j st f) ok # es) =
     (if ok \<and> deadline < t then (t, UpdateJobStatus j st f) # late_writes es else late_writes es)"
| "late_writes (Called t (AddDocuments cs vs m j) ok # es) =
     (if ok \<and> deadline < t then (t, AddDocuments cs vs m j) # late_writes es else late_writes es)"
| "late_writes (e # es) = late_writes es"

text \<open>
  Both threads on one clock: the events of the thread and of the main thread in the order
  of their times (each trace is in that order already; at equal times the thread's event
  comes first). The persisted status after a run is read from this list.
\<close>

fun merge_by_time :: "event list \<Rightarrow> event list \<Rightarrow> event list" where
  "merge_by_time [] ys = ys"
| "merge_by_time xs [] = xs"
| "merge_by_time (x # xs) (y # ys) =
     (if stamp x \<le> stamp y then x # merge_by_time xs (y # ys)
      else y # merge_by_time (x # xs) ys)"

definition timeline :: "run \<Rightarrow> event list" where
  "timeline r = merge_by_time (worker_trace r) (main_trace r)"

text \<open>
  The order of the two VectorStore operations: scanning a trace, \<open>g\<close> tells whether
  \<^verbatim>\<open>create_collection_if_not_exists\<close> has returned so far; every \<^verbatim>\<open>add_documents\<close> must
  come after that.
\<close>

fun upsert_guarded :: "bool \<Rightarrow> event list \<Rightarrow> bool" where
  "upsert_guarded g [] = True"
| "upsert_guarded g (Called t CreateCollection ok # es) = upsert_guarded (g \<or> ok) es"
| "upsert_guarded g (Called t (AddDocuments cs vs m j) ok # es) = (g \<and> upsert_guarded g es)"
| "upsert_guarded g (e # es) = upsert_guarded g es"

text \<open>
  The embedding stage read from a trace: the batches sent to the Embedder, the number of
  texts in them, and the number of vectors the Embedder returned for them.
\<close>

fun embed_batches :: "event list \<Rightarrow> string list list" where
  "embed_batches [] = []"
| "embed_batches (Called t (EmbedDocuments b) ok # es) = b # embed_batches es"
| "embed_batches (e # es) = embed_batches es"

fun is_embed :: "event \<Rightarrow> bool" where
  "is_embed (Called t (EmbedDocuments b) ok) = True"
| "is_embed ev = False"

definition embedded :: "env \<Rightarrow> string list \<Rightarrow> vector list" where
  "embedded e b = (case snd (embed_documents e b) of Inl x \<Rightarrow> [] | Inr vs \<Rightarrow> vs)"

definition chunks_sent :: "event list \<Rightarrow> nat" where
  "chunks_sent es = sum_list (map length (embed_batches es))"

definition vectors_produced :: "env \<Rightarrow> event list \<Rightarrow> nat" where
  "vectors_produced e es = sum_list (map (\<lambda>b. length (embedded e b)) (embed_batches es))"

subsection \<open>Environments for the examples\<close>

text \<open>
  A stand-in for \<^verbatim>\<open>uuid.UUID\<close>: hyphens are dropped, and what is left must be 32
  lower-case hexadecimal digits.
\<close>

definition demo_uuid :: "string \<Rightarrow> exn + uuid" where
  "demo_uuid s =
     (let hex = filter (\<lambda>c. c \<noteq> CHR ''-'') s
      in if length hex = 32 \<and> list_all (\<lambda>c. c \<in> set ''0123456789abcdef'') hex
         then Inr (UUID hex)
         else Inl (Exn ''ValueError'' ''badly formed hexadecimal UUID string''))"

definition demo :: env where
  "demo = \<lparr>uuid_parse = demo_uuid,
     format_exc = (\<lambda>x. exn_class x @ '': '' @ exn_str x),
     update_job_status_sync = (\<lambda>j st f. (1, Inr ())),
     fetch_url_content_sync = (\<lambda>u. (2, Inr ''<p>alpha beta</p>'')),
     clean_html = (\<lambda>h. (0, Inr ''alpha beta'')),
     chunk_text = (\<lambda>t size overlap. (0, Inr [''alpha'', ''beta''])),
     CHUNK_SIZE = 1000, CHUNK_OVERLAP = 200,
     GeminiEmbeddings = (0, Inr ()),
     embed_documents = (\<lambda>b. (3, Inr (map (\<lambda>c. [real (length c)]) b))),
     QdrantStore = (0, Inr ()),
     create_collection_if_not_exists = (1, Inr ()),
     add_documents = (\<lambda>cs vs m j. (1, Inr (int (length vs))))\<rparr>"

text \<open>Variants of it: a page that cannot be fetched, a StatusStore that refuses every
  write, a fetch that outlasts the deadline, an Embedder that returns no vector.\<close>

definition fetch_down :: env where
  "fetch_down = demo\<lparr>fetch_url_content_sync :=
     (\<lambda>u. (5, Inl (Exn ''ConnectionError'' ''no route to host'')))\<rparr>"

definition store_down :: env where
  "store_down = demo\<lparr>update_job_status_sync :=
     (\<lambda>j st f. (1, Inl (Exn ''OperationalError'' ''database is unavailable'')))\<rparr>"

definition slow_fetch :: env where
  "slow_fetch = demo\<lparr>fetch_url_content_sync := (\<lambda>u. (301, Inr ''<p>alpha beta</p>''))\<rparr>"

definition short_embedder :: env where
  "short_embedder = demo\<lparr>embed_documents := (\<lambda>b. (3, Inr []))\<rparr>"

text \<open>A page of 150 chunks, and the same page with an Embedder that raises.\<close>

definition long_page :: env where
  "long_page = demo\<lparr>chunk_text := (\<lambda>t size overlap. (0, Inr (replicate 150 ''c'')))\<rparr>"

definition embedder_down :: env where
  "embedder_down = long_page\<lparr>embed_documents :=
     (\<lambda>b. (3, Inl (Exn ''EmbeddingError'' ''quota exceeded'')))\<rparr>"

text \<open>An environment whose StatusStore answers every write of the status "failed" with
  \<open>reply\<close>, and is otherwise unchanged.\<close>

definition answering_failed :: "env \<Rightarrow> (uuid \<Rightarrow> status_fields \<Rightarrow> unit reply) \<Rightarrow> env" where
  "answering_failed e reply = e\<lparr>update_job_status_sync :=
     (\<lambda>j st f. if st = ''failed'' then reply j f else update_job_status_sync e j st f)\<rparr>"

definition good_id :: string where
  "good_id = ''123e4567-e89b-12d3-a456-426614174000''"

definition good_uuid :: uuid where
  "good_uuid = UUID ''123e4567e89b12d3a456426614174000''"

definition attempt_no :: "nat \<Rightarrow> task" where
  "attempt_no n = celery_task (Some \<lparr>retries = Some n\<rparr>)"

section \<open>Properties\<close>

lemmas model_defs = process_url_ingestion_def attempt_def is_alive_def run_work_def work_def
  and_then_def info_def error_def lift_def perform_def returned_def on_exception_def
  retry_or_raise_def current_retries_def celery_task_def deadline_def timeout_error_def
  no_fields_def batch_size_def Let_def

lemmas demo_defs = demo_def demo_uuid_def good_id_def good_uuid_def attempt_no_def
  fetch_down_def store_down_def slow_fetch_def short_embedder_def

subsection \<open>The main thread after a failed attempt\<close>

lemma signal_on_failure:
  assumes "attempt e jid u = Inl exc"
  shows "signal (process_url_ingestion self e jid u) =
     (if current_retries self < max_retries self
      then RetryAfter exc (60 * 2 ^ current_retries self) else Raised exc)"
  using assms
  by (simp add: process_url_ingestion_def on_exception_def retry_or_raise_def Let_def
      split: prod.splits)

lemma main_calls_on_failure:
  assumes "attempt e jid u = Inl exc"
  shows "calls (main_trace (process_url_ingestion self e jid u)) =
     (case uuid_parse e jid of
        Inl x \<Rightarrow> []
      | Inr j \<Rightarrow> [UpdateJobStatus j ''failed''
           (no_fields\<lparr>error_message := Some (exn_str exc),
              error_traceback := Some (format_exc e exc)\<rparr>)])"
  using assms
  by (auto simp: process_url_ingestion_def on_exception_def retry_or_raise_def Let_def
      and_then_def lift_def perform_def info_def error_def
      split: prod.splits sum.splits)

lemma main_writes_on_failure:
  assumes "attempt e jid u = Inl exc"
  shows "status_writes (main_trace (process_url_ingestion self e jid u)) =
     (case uuid_parse e jid of
        Inl x \<Rightarrow> []
      | Inr j \<Rightarrow>
          (let f = no_fields\<lparr>error_message := Some (exn_str exc),
                     error_traceback := Some (format_exc e exc)\<rparr>
           in if returned (snd (update_job_status_sync e j ''failed'' f))
              then [(j, ''failed'', f)] else []))"
  using assms
  by (auto simp: process_url_ingestion_def on_exception_def retry_or_raise_def Let_def
      and_then_def lift_def perform_def info_def error_def
      split: prod.splits sum.splits)

lemma main_error_logs_on_failure:
  assumes "attempt e jid u = Inl exc"
  shows "error_logs (main_trace (process_url_ingestion self e jid u)) =
     (if status_writes (main_trace (process_url_ingestion self e jid u)) = []
      then [''Ingestion task failed'', ''Failed to persist job failure'']
      else [''Ingestion task failed''])"
  using assms
  by (auto simp: process_url_ingestion_def on_exception_def retry_or_raise_def Let_def
      and_then_def lift_def perform_def info_def error_def returned_def
      split: prod.splits sum.splits)

subsection \<open>Retry with backoff\<close>

text \<open>
  Claim C4. Whenever the attempt of the registered task (\<^verbatim>\<open>max_retries=3\<close>) fails with an
  error \<open>exc\<close>, be it raised in the thread or the timeout, the caller gets a retry exactly
  when the attempt count \<^verbatim>\<open>self.request.retries\<close> is below 3, with the countdown
  \<open>60 * 2 ^ retries\<close> seconds and the error \<open>exc\<close> attached; from count 3 on it gets \<open>exc\<close>
  itself, re-raised.
\<close>

theorem retry_iff_attempts_left:
  assumes "attempt e jid u = Inl exc"
  shows "signal (process_url_ingestion (celery_task rq) e jid u) =
     (if current_retries (celery_task rq) < 3
      then RetryAfter exc (60 * 2 ^ current_retries (celery_task rq))
      else Raised exc)"
  using signal_on_failure [OF assms, of "celery_task rq"]
  by (simp add: celery_task_def)

text \<open>At counts 0, 1, 2 and 3 with an unreachable page: 60, 120 and 240 seconds, then the error.\<close>

theorem retry_iff_attempts_left_witness:
  "attempt fetch_down good_id ''http://x'' = Inl (Exn ''ConnectionError'' ''no route to host'') \<and>
   signal (process_url_ingestion (celery_task (Some \<lparr>retries = Some 0\<rparr>)) fetch_down good_id ''http://x'')
     = RetryAfter (Exn ''ConnectionError'' ''no route to host'') 60 \<and>
   signal (process_url_ingestion (celery_task (Some \<lparr>retries = Some 1\<rparr>)) fetch_down good_id ''http://x'')
     = RetryAfter (Exn ''ConnectionError'' ''no route to host'') 120 \<and>
   signal (process_url_ingestion (celery_task (Some \<lparr>retries = Some 2\<rparr>)) fetch_down good_id ''http://x'')
     = RetryAfter (Exn ''ConnectionError'' ''no route to host'') 240 \<and>
   signal (process_url_ingestion (celery_task (Some \<lparr>retries = Some 3\<rparr>)) fetch_down good_id ''http://x'')
     = Raised (Exn ''ConnectionError'' ''no route to host'')"
proof -
  have a: "attempt fetch_down good_id ''http://x'' = Inl (Exn ''ConnectionError'' ''no route to host'')"
    by (simp add: model_defs demo_defs)
  show ?thesis
    using a retry_iff_attempts_left [OF a, of "Some \<lparr>retries = Some 0\<rparr>"]
      retry_iff_attempts_left [OF a, of "Some \<lparr>retries = Some 1\<rparr>"]
      retry_iff_attempts_left [OF a, of "Some \<lparr>retries = Some 2\<rparr>"]
      retry_iff_attempts_left [OF a, of "Some \<lparr>retries = Some 3\<rparr>"]
    by (simp add: current_retries_def celery_task_def)
qed

subsection \<open>Steps of the worker\<close>

lemma and_then_info:
  "and_then (info m) f s = f () (s\<lparr>trace := trace s @ [LogInfo (clock s) m]\<rparr>)"
  by (simp add: and_then_def info_def)

lemma and_then_lift:
  "and_then (lift r) f s = (case r of Inl x \<Rightarrow> (Inl x, s) | Inr y \<Rightarrow> f y s)"
  by (simp add: and_then_def lift_def split: sum.splits)

lemma and_then_perform:
  "and_then (perform c r) f s =
     (case snd r of
        Inl x \<Rightarrow> (Inl x, \<lparr>clock = clock s + fst r,
                   trace = trace s @ [Called (clock s + fst r) c False]\<rparr>)
      | Inr y \<Rightarrow> f y \<lparr>clock = clock s + fst r,
                   trace = trace s @ [Called (clock s + fst r) c True]\<rparr>)"
  by (simp add: and_then_def perform_def returned_def Let_def split: sum.splits)

lemma and_then_perform_at:
  "and_then (\<lambda>s. perform (c s) (r s) s) f s =
     (case snd (r s) of
        Inl x \<Rightarrow> (Inl x, \<lparr>clock = clock s + fst (r s),
                   trace = trace s @ [Called (clock s + fst (r s)) (c s) False]\<rparr>)
      | Inr y \<Rightarrow> f y \<lparr>clock = clock s + fst (r s),
                   trace = trace s @ [Called (clock s + fst (r s)) (c s) True]\<rparr>)"
  by (simp add: and_then_def perform_def returned_def Let_def split: sum.splits)

lemmas work_steps = and_then_info and_then_lift and_then_perform and_then_perform_at

lemma and_thenE:
  assumes "and_then m f s = (r, s')"
  obtains x where "m s = (Inl x, s')" and "r = Inl x"
  | y s1 where "m s = (Inr y, s1)" and "f y s1 = (r, s')"
  using assms by (auto simp: and_then_def split: prod.splits sum.splits)

lemma run_work_bad_id:
  assumes "uuid_parse e jid = Inl x"
  shows "run_work e jid u = (Inl x, \<lparr>clock = 0, trace = [LogInfo 0 ''Converting job_id to UUID'']\<rparr>)"
  using assms by (simp add: run_work_def work_def work_steps)

lemma run_work_processing_fails:
  assumes "uuid_parse e jid = Inr j"
    and "update_job_status_sync e j ''processing'' (no_fields\<lparr>started_at := Some 0\<rparr>) = (d, Inl x)"
  shows "run_work e jid u = (Inl x, \<lparr>clock = d, trace =
     [LogInfo 0 ''Converting job_id to UUID'', LogInfo 0 ''Marking job as processing'',
      Called d (UpdateJobStatus j ''processing'' (no_fields\<lparr>started_at := Some 0\<rparr>)) False]\<rparr>)"
  using assms by (simp add: run_work_def work_def work_steps)


lemma worker_trace_run [simp]:
  "worker_trace (process_url_ingestion self e jid u) = trace (snd (run_work e jid u))"
  by (simp add: process_url_ingestion_def Let_def split: prod.splits)

subsection \<open>A malformed job id\<close>

text \<open>
  Claim C5, as stated, fails: for a malformed \<^verbatim>\<open>job_id\<close> a retry is scheduled like for any
  other error. Here \<^verbatim>\<open>"not-a-uuid"\<close> on the first attempt: the caller gets a retry in 60
  seconds.
\<close>

theorem malformed_job_id_is_retried:
  "uuid_parse demo ''not-a-uuid'' = Inl (Exn ''ValueError'' ''badly formed hexadecimal UUID string'') \<and>
   signal (process_url_ingestion (attempt_no 0) demo ''not-a-uuid'' ''http://x'') =
     RetryAfter (Exn ''ValueError'' ''badly formed hexadecimal UUID string'') 60"
  by (simp add: model_defs demo_defs)

text \<open>
  Claim C5, amended. For every invocation with a \<^verbatim>\<open>job_id\<close> that \<^verbatim>\<open>UUID\<close> rejects, the
  attempt fails at once: the thread calls no collaborator, and the main thread calls none
  either, since reporting the failure parses the id again, fails, and only logs that. The
  error is then retried under the usual policy: a retry while the attempt count is below
  \<^verbatim>\<open>max_retries\<close>, the error itself from then on.
\<close>

theorem malformed_job_id:
  assumes "uuid_parse e jid = Inl x"
  shows "calls (worker_trace (process_url_ingestion self e jid u)) = [] \<and>
     calls (main_trace (process_url_ingestion self e jid u)) = [] \<and>
     error_logs (main_trace (process_url_ingestion self e jid u)) =
       [''Ingestion task failed'', ''Failed to persist job failure''] \<and>
     signal (process_url_ingestion self e jid u) =
       (if current_retries self < max_retries self
        then RetryAfter x (60 * 2 ^ current_retries self) else Raised x)"
proof -
  have a: "attempt e jid u = Inl x"
    using run_work_bad_id [OF assms, of u] by (simp add: attempt_def is_alive_def)
  have w: "calls (worker_trace (process_url_ingestion self e jid u)) = []"
    using run_work_bad_id [OF assms, of u] by simp
  from a w show ?thesis
    using assms
    by (simp add: signal_on_failure main_calls_on_failure main_error_logs_on_failure
        main_writes_on_failure)
qed

theorem malformed_job_id_witness:
  "uuid_parse demo ''not-a-uuid'' = Inl (Exn ''ValueError'' ''badly formed hexadecimal UUID string'') \<and>
   calls (worker_trace (process_url_ingestion (attempt_no 3) demo ''not-a-uuid'' ''http://x'')) = [] \<and>
   calls (main_trace (process_url_ingestion (attempt_no 3) demo ''not-a-uuid'' ''http://x'')) = [] \<and>
   signal (process_url_ingestion (attempt_no 3) demo ''not-a-uuid'' ''http://x'') =
     Raised (Exn ''ValueError'' ''badly formed hexadecimal UUID string'')"
proof -
  have p: "uuid_parse demo ''not-a-uuid'' = Inl (Exn ''ValueError'' ''badly formed hexadecimal UUID string'')"
    by (simp add: demo_defs)
  show ?thesis
    using p malformed_job_id [OF p, of "attempt_no 3" "''http://x''"]
    by (simp add: attempt_no_def celery_task_def current_retries_def)
qed

subsection \<open>A failing write of the status "processing"\<close>

text \<open>
  Claim C7, as stated, fails: line 45 is not inside any \<^verbatim>\<open>try\<close> of \<^verbatim>\<open>_work\<close>, so an
  exception of that write ends the attempt. With a StatusStore that refuses every write,
  the thread's only call is that write (the page is never fetched), and the caller gets a
  retry.
\<close>

theorem processing_write_failure_aborts:
  "update_job_status_sync store_down good_uuid ''processing'' (no_fields\<lparr>started_at := Some 0\<rparr>) =
     (1, Inl (Exn ''OperationalError'' ''database is unavailable'')) \<and>
   calls (worker_trace (process_url_ingestion (attempt_no 0) store_down good_id ''http://x'')) =
     [UpdateJobStatus good_uuid ''processing'' (no_fields\<lparr>started_at := Some 0\<rparr>)] \<and>
   signal (process_url_ingestion (attempt_no 0) store_down good_id ''http://x'') =
     RetryAfter (Exn ''OperationalError'' ''database is unavailable'') 60"
  by (simp add: model_defs demo_defs)

text \<open>
  Claim C7, amended. For every execution in which the write marking the job "processing"
  raises, the attempt is aborted: that write is the thread's only collaborator call, so no
  pipeline stage (fetch, clean, chunk, embed, upsert) runs, and the attempt fails, with the
  exception of the write, or with the timeout when the write took longer than the 300
  seconds of the deadline to raise. That error is handled as any other failure: the main
  thread reports status "failed" with the error's message, and the usual retry policy
  applies.
\<close>

theorem processing_write_failure:
  assumes "uuid_parse e jid = Inr j"
    and "update_job_status_sync e j ''processing'' (no_fields\<lparr>started_at := Some 0\<rparr>) = (d, Inl x)"
  shows "calls (worker_trace (process_url_ingestion self e jid u)) =
       [UpdateJobStatus j ''processing'' (no_fields\<lparr>started_at := Some 0\<rparr>)] \<and>
     attempt e jid u = Inl (if deadline < d then timeout_error else x) \<and>
     calls (main_trace (process_url_ingestion self e jid u)) =
       [UpdateJobStatus j ''failed''
          (no_fields\<lparr>error_message := Some (exn_str (if deadline < d then timeout_error else x)),
             error_traceback := Some (format_exc e (if deadline < d then timeout_error else x))\<rparr>)] \<and>
     signal (process_url_ingestion self e jid u) =
       (if current_retries self < max_retries self
        then RetryAfter (if deadline < d then timeout_error else x) (60 * 2 ^ current_retries self)
        else Raised (if deadline < d then timeout_error else x))"
proof -
  note w = run_work_processing_fails [OF assms(1,2), of u]
  have a: "attempt e jid u = Inl (if deadline < d then timeout_error else x)"
    using w by (simp add: attempt_def is_alive_def)
  have c: "calls (worker_trace (process_url_ingestion self e jid u)) =
       [UpdateJobStatus j ''processing'' (no_fields\<lparr>started_at := Some 0\<rparr>)]"
    using w by simp
  from a c show ?thesis
    using assms(1) signal_on_failure [OF a, of self] main_calls_on_failure [OF a, of self]
    by simp
qed

text \<open>A StatusStore that refuses after one second, and one that refuses after 301.\<close>

theorem processing_write_failure_witness:
  "uuid_parse store_down good_id = Inr good_uuid \<and>
   update_job_status_sync store_down good_uuid ''processing'' (no_fields\<lparr>started_at := Some 0\<rparr>) =
     (1, Inl (Exn ''OperationalError'' ''database is unavailable'')) \<and>
   calls (worker_trace (process_url_ingestion (attempt_no 1) store_down good_id ''http://x'')) =
     [UpdateJobStatus good_uuid ''processing'' (no_fields\<lparr>started_at := Some 0\<rparr>)] \<and>
   attempt store_down good_id ''http://x'' = Inl (Exn ''OperationalError'' ''database is unavailable'') \<and>
   signal (process_url_ingestion (attempt_no 1) store_down good_id ''http://x'') =
     RetryAfter (Exn ''OperationalError'' ''database is unavailable'') 120 \<and>
   uuid_parse (demo\<lparr>update_job_status_sync := (\<lambda>j st f. (301, Inl (Exn ''OperationalError'' ''lock wait'')))\<rparr>)
     good_id = Inr good_uuid \<and>
   calls (worker_trace (process_url_ingestion (attempt_no 1)
     (demo\<lparr>update_job_status_sync := (\<lambda>j st f. (301, Inl (Exn ''OperationalError'' ''lock wait'')))\<rparr>)
     good_id ''http://x'')) =
     [UpdateJobStatus good_uuid ''processing'' (no_fields\<lparr>started_at := Some 0\<rparr>)] \<and>
   signal (process_url_ingestion (attempt_no 1)
     (demo\<lparr>update_job_status_sync := (\<lambda>j st f. (301, Inl (Exn ''OperationalError'' ''lock wait'')))\<rparr>)
     good_id ''http://x'') =
     RetryAfter (Exn ''TimeoutError'' ''Ingestion task timed out'') 120"
proof -
  let ?late = "demo\<lparr>update_job_status_sync :=
     (\<lambda>j st f. (301, Inl (Exn ''OperationalError'' ''lock wait'')))\<rparr>"
  have p: "uuid_parse store_down good_id = Inr good_uuid"
    by (simp add: demo_defs)
  have q: "update_job_status_sync store_down good_uuid ''processing'' (no_fields\<lparr>started_at := Some 0\<rparr>) =
     (1, Inl (Exn ''OperationalError'' ''database is unavailable''))"
    by (simp add: demo_defs)
  have p': "uuid_parse ?late good_id = Inr good_uuid"
    by (simp add: demo_defs)
  have q': "update_job_status_sync ?late good_uuid ''processing'' (no_fields\<lparr>started_at := Some 0\<rparr>) =
     (301, Inl (Exn ''OperationalError'' ''lock wait''))"
    by (simp add: demo_defs)
  show ?thesis
    using p q p' processing_write_failure [OF p q, of "attempt_no 1" "''http://x''"]
      processing_write_failure [OF p' q', of "attempt_no 1" "''http://x''"]
    by (simp add: attempt_no_def celery_task_def current_retries_def deadline_def
        timeout_error_def)
qed

lemma status_writes_append:
  "status_writes (xs @ ys) = status_writes xs @ status_writes ys"
  by (induction xs rule: status_writes.induct) simp_all


lemma attempt_alive:
  assumes "is_alive e jid u"
  shows "attempt e jid u = Inl timeout_error"
  using assms by (simp add: attempt_def)

subsection \<open>The deadline\<close>




subsection \<open>A failure report that cannot be persisted\<close>

lemma embed_loop_status_store:
  "embed_loop (e\<lparr>update_job_status_sync := g\<rparr>) c i v s = embed_loop e c i v s"
proof (induction e c i v s rule: embed_loop.induct)
  case (1 e chunks i vectors s)
  show ?case
  proof (cases "i < length chunks")
    case False
    then show ?thesis by (simp add: embed_loop.simps [of _ chunks i])
  next
    case True
    show ?thesis
    proof (cases "perform (EmbedDocuments (take batch_size (drop i chunks)))
                    (embed_documents e (take batch_size (drop i chunks))) s")
      case (Pair r s1)
      show ?thesis
      proof (cases r)
        case (Inl x)
        with True Pair show ?thesis by (simp add: embed_loop.simps [of _ chunks i])
      next
        case (Inr bv)
        from "1.IH" [OF True refl Pair [symmetric] Inr] True Pair Inr
        show ?thesis by (simp add: embed_loop.simps [of _ chunks i])
      qed
    qed
  qed
qed

lemma embed_loop_status_store_fun:
  "embed_loop (e\<lparr>update_job_status_sync := g\<rparr>) c i v = embed_loop e c i v"
  by (rule ext) (rule embed_loop_status_store)

lemma run_work_answering_failed:
  "run_work (answering_failed e reply) jid u = run_work e jid u"
  unfolding run_work_def work_def answering_failed_def
  by (simp add: embed_loop_status_store_fun)

lemma attempt_answering_failed:
  "attempt (answering_failed e reply) jid u = attempt e jid u"
  by (simp add: attempt_def is_alive_def run_work_answering_failed)

text \<open>
  Claim C8. For every failed attempt whose report of the status "failed" is not persisted
  (the write raises, or \<^verbatim>\<open>UUID(job_id)\<close> before it does), the secondary error is logged
  ("Failed to persist job failure") and the decision is the one the original error \<open>exc\<close>
  and the attempt count give. It is also the decision of the same run with any other
  answer of the StatusStore to that write, an accepting one included.
\<close>

theorem failed_report_failure_is_tolerated:
  assumes "attempt e jid u = Inl exc"
    and "status_writes (main_trace (process_url_ingestion self e jid u)) = []"
  shows "error_logs (main_trace (process_url_ingestion self e jid u)) =
       [''Ingestion task failed'', ''Failed to persist job failure''] \<and>
     signal (process_url_ingestion self e jid u) =
       (if current_retries self < max_retries self
        then RetryAfter exc (60 * 2 ^ current_retries self) else Raised exc) \<and>
     signal (process_url_ingestion self (answering_failed e reply) jid u) =
       signal (process_url_ingestion self e jid u)"
proof -
  have "attempt (answering_failed e reply) jid u = Inl exc"
    using assms(1) by (simp add: attempt_answering_failed)
  from signal_on_failure [OF this] signal_on_failure [OF assms(1)]
    main_error_logs_on_failure [OF assms(1)] assms(2)
  show ?thesis by simp
qed

theorem failed_report_failure_is_tolerated_witness:
  "attempt store_down good_id ''http://x'' = Inl (Exn ''OperationalError'' ''database is unavailable'') \<and>
   status_writes (main_trace (process_url_ingestion (attempt_no 0) store_down good_id ''http://x'')) = [] \<and>
   error_logs (main_trace (process_url_ingestion (attempt_no 0) store_down good_id ''http://x'')) =
     [''Ingestion task failed'', ''Failed to persist job failure''] \<and>
   signal (process_url_ingestion (attempt_no 0) store_down good_id ''http://x'') =
     RetryAfter (Exn ''OperationalError'' ''database is unavailable'') 60 \<and>
   signal (process_url_ingestion (attempt_no 0)
       (answering_failed store_down (\<lambda>j f. (1, Inr ()))) good_id ''http://x'') =
     RetryAfter (Exn ''OperationalError'' ''database is unavailable'') 60"
proof -
  have a: "attempt store_down good_id ''http://x'' = Inl (Exn ''OperationalError'' ''database is unavailable'')"
    by (simp add: model_defs demo_defs)
  have w: "status_writes (main_trace (process_url_ingestion (attempt_no 0) store_down good_id ''http://x'')) = []"
    by (simp add: model_defs demo_defs)
  show ?thesis
    using a w failed_report_failure_is_tolerated [OF a w, of "\<lambda>j f. (1, Inr ())"]
    by (simp add: attempt_no_def celery_task_def current_retries_def)
qed

subsection \<open>Traces and the embedding loop\<close>

lemma calls_append: "calls (xs @ ys) = calls xs @ calls ys"
  by (induction xs rule: calls.induct) simp_all

lemma failed_calls_append: "failed_calls (xs @ ys) = failed_calls xs @ failed_calls ys"
  by (induction xs rule: failed_calls.induct) simp_all

lemma late_writes_append: "late_writes (xs @ ys) = late_writes xs @ late_writes ys"
  by (induction xs rule: late_writes.induct) simp_all

lemma embed_batches_append: "embed_batches (xs @ ys) = embed_batches xs @ embed_batches ys"
  by (induction xs rule: embed_batches.induct) simp_all

lemma chunks_sent_append: "chunks_sent (xs @ ys) = chunks_sent xs + chunks_sent ys"
  by (simp add: chunks_sent_def embed_batches_append)

lemma vectors_produced_append:
  "vectors_produced e (xs @ ys) = vectors_produced e xs + vectors_produced e ys"
  by (simp add: vectors_produced_def embed_batches_append)

lemma embeds_status_writes: "list_all is_embed es \<Longrightarrow> status_writes es = []"
  by (induction es rule: status_writes.induct) simp_all

lemma embeds_late_writes: "list_all is_embed es \<Longrightarrow> late_writes es = []"
  by (induction es rule: late_writes.induct) simp_all

lemma embeds_upsert_guarded:
  "list_all is_embed es \<Longrightarrow> upsert_guarded g (es @ rest) = upsert_guarded g rest"
  by (induction g es rule: upsert_guarded.induct) simp_all

lemma embed_loop_trace:
  "embed_loop e c i v s = (r, s') \<Longrightarrow>
     \<exists>es. trace s' = trace s @ es \<and> list_all is_embed es \<and> clock s \<le> clock s'"
proof (induction e c i v s rule: embed_loop.induct)
  case (1 e chunks i vectors s)
  show ?case
  proof (cases "i < length chunks")
    case False
    with "1.prems" show ?thesis by (simp add: embed_loop.simps)
  next
    case True
    let ?b = "take batch_size (drop i chunks)"
    obtain x s1 where p: "perform (EmbedDocuments ?b) (embed_documents e ?b) s = (x, s1)"
      by (cases "perform (EmbedDocuments ?b) (embed_documents e ?b) s")
    then have t1: "trace s1 = trace s @ [Called (clock s1) (EmbedDocuments ?b) (returned x)]"
      and c1: "clock s \<le> clock s1"
      by (auto simp: perform_def Let_def)
    show ?thesis
    proof (cases x)
      case (Inl a)
      with True p "1.prems" have "s' = s1" by (simp add: embed_loop.simps [of e chunks i])
      with t1 c1 show ?thesis by simp
    next
      case (Inr bv)
      with True p "1.prems" have "embed_loop e chunks (i + batch_size) (vectors @ bv) s1 = (r, s')"
        by (simp add: embed_loop.simps [of e chunks i])
      from "1.IH" [OF True refl p [symmetric] Inr this]
      obtain es where "trace s' = trace s1 @ es" "list_all is_embed es" "clock s1 \<le> clock s'"
        by blast
      with t1 c1 show ?thesis by simp
    qed
  qed
qed

lemma embed_loop_raises:
  "embed_loop e c i v s = (Inl x, s') \<Longrightarrow> failed_calls (trace s') \<noteq> []"
proof (induction e c i v s rule: embed_loop.induct)
  case (1 e chunks i vectors s)
  show ?case
  proof (cases "i < length chunks")
    case False
    with "1.prems" show ?thesis by (simp add: embed_loop.simps)
  next
    case True
    let ?b = "take batch_size (drop i chunks)"
    obtain r s1 where p: "perform (EmbedDocuments ?b) (embed_documents e ?b) s = (r, s1)"
      by (cases "perform (EmbedDocuments ?b) (embed_documents e ?b) s")
    then have t1: "trace s1 = trace s @ [Called (clock s1) (EmbedDocuments ?b) (returned r)]"
      by (auto simp: perform_def Let_def)
    show ?thesis
    proof (cases r)
      case (Inl a)
      with True p "1.prems" have "s' = s1" by (simp add: embed_loop.simps [of e chunks i])
      with t1 Inl show ?thesis by (simp add: failed_calls_append returned_def)
    next
      case (Inr bv)
      with True p "1.prems" have "embed_loop e chunks (i + batch_size) (vectors @ bv) s1 = (Inl x, s')"
        by (simp add: embed_loop.simps [of e chunks i])
      from "1.IH" [OF True refl p [symmetric] Inr this] show ?thesis .
    qed
  qed
qed

lemma ceil_step:
  fixes n i :: nat
  assumes "i < n"
  shows "Suc ((n - (i + 100) + 99) div 100) = (n - i + 99) div 100"
proof (cases "100 \<le> n - i")
  case True
  then obtain k where k: "n - i = k + 100"
    by (metis le_add_diff_inverse2)
  then have "n - (i + 100) = k" by simp
  moreover have "(k + 100 + 99) div 100 = Suc ((k + 99) div 100)"
    by simp
  ultimately show ?thesis using k by simp
next
  case False
  with assms have a: "n - (i + 100) = 0" and b: "100 \<le> n - i + 99" and c: "n - i + 99 < 200"
    by simp_all
  from b c have "(n - i + 99) div 100 = 1"
    by (simp add: div_nat_eqI)
  with a show ?thesis by simp
qed


text \<open>What a completed loop has sent and received.\<close>

lemma embed_loop_returns:
  "embed_loop e c i v s = (Inr vs, s') \<Longrightarrow>
     \<exists>es. trace s' = trace s @ es \<and> failed_calls es = [] \<and>
       length es = (length c - i + 99) div 100 \<and>
       length vs = length v + vectors_produced e es \<and>
       chunks_sent es = length c - i"
proof (induction e c i v s arbitrary: vs rule: embed_loop.induct)
  case (1 e chunks i vectors s)
  show ?case
  proof (cases "i < length chunks")
    case False
    with "1.prems" show ?thesis
      by (simp add: embed_loop.simps chunks_sent_def vectors_produced_def)
  next
    case True
    let ?b = "take batch_size (drop i chunks)"
    obtain r s1 where p: "perform (EmbedDocuments ?b) (embed_documents e ?b) s = (r, s1)"
      by (cases "perform (EmbedDocuments ?b) (embed_documents e ?b) s")
    then have t1: "trace s1 = trace s @ [Called (clock s1) (EmbedDocuments ?b) (returned r)]"
      and r: "r = snd (embed_documents e ?b)"
      by (auto simp: perform_def Let_def)
    show ?thesis
    proof (cases r)
      case (Inl a)
      with True p "1.prems" show ?thesis by (simp add: embed_loop.simps [of e chunks i])
    next
      case (Inr bv)
      with True p "1.prems" have "embed_loop e chunks (i + batch_size) (vectors @ bv) s1 = (Inr vs, s')"
        by (simp add: embed_loop.simps [of e chunks i])
      from "1.IH" [OF True refl p [symmetric] Inr this]
      obtain es where es: "trace s' = trace s1 @ es" "failed_calls es = []"
        "length es = (length chunks - (i + batch_size) + 99) div 100"
        "length vs = length (vectors @ bv) + vectors_produced e es"
        "chunks_sent es = length chunks - (i + batch_size)"
        by blast
      let ?ev = "Called (clock s1) (EmbedDocuments ?b) (returned r)"
      have bv: "embedded e ?b = bv"
        using r [symmetric] Inr by (simp add: embedded_def)
      have n: "length (?ev # es) = (length chunks - i + 99) div 100"
        using es(3) ceil_step [OF True] by (simp add: batch_size_def)
      have "trace s' = trace s @ (?ev # es)"
        using es(1) t1 by simp
      moreover have "failed_calls (?ev # es) = []"
        using es(2) Inr by (simp add: returned_def)
      moreover have "length vs = length vectors + vectors_produced e (?ev # es)"
        using es(4) bv by (simp add: vectors_produced_def)
      moreover have "chunks_sent (?ev # es) = length chunks - i"
        using es(5) True by (simp add: chunks_sent_def batch_size_def)
      ultimately show ?thesis using n by blast
    qed
  qed
qed

subsection \<open>The whole of the worker\<close>

lemma run_work_returns_shape:
  assumes "run_work e jid u = (Inr res, s')"
  obtains j html plain chunks vectors added s0 s1 t1 t2 t3 t4 where
    "uuid_parse e jid = Inr j"
    "snd (fetch_url_content_sync e u) = Inr html"
    "snd (clean_html e html) = Inr plain"
    "snd (chunk_text e plain (CHUNK_SIZE e) (CHUNK_OVERLAP e)) = Inr chunks"
    "snd (add_documents e chunks vectors [(''source_url'', u)] jid) = Inr added"
    "res = \<lparr>job_id = jid, status = ''completed'', chunks_added = added\<rparr>"
    "embed_loop e chunks 0 [] s0 = (Inr vectors, s1)"
    "failed_calls (trace s0) = []" "embed_batches (trace s0) = []"
    "trace s' = trace s1 @
       [LogInfo t1 ''Storing in Qdrant'', Called t2 NewStore True,
        Called t3 CreateCollection True,
        Called t4 (AddDocuments chunks vectors [(''source_url'', u)] jid) True,
        LogInfo t4 ''Marking job as completed'',
        Called (clock s') (UpdateJobStatus j ''completed''
          (no_fields\<lparr>chunk_count := Some (length chunks), completed_at := Some t4\<rparr>)) True]"
  using assms unfolding run_work_def work_def
  apply (simp add: work_steps split: sum.splits)
  apply (erule and_thenE)
   apply simp
  apply (simp add: work_steps lift_def split: sum.splits)
  apply (elim conjE)
  apply hypsubst
  apply simp
  done

lemma run_work_raises:
  assumes "run_work e jid u = (Inl x, s')"
  shows "uuid_parse e jid = Inl x \<or> failed_calls (trace s') \<noteq> []"
  using assms unfolding run_work_def work_def
  apply (simp add: work_steps failed_calls_append split: sum.splits)
       apply (auto simp: failed_calls_append)[5]
  apply (erule and_thenE)
   apply (drule embed_loop_raises)
   apply simp
  apply (simp add: work_steps lift_def failed_calls_append split: sum.splits)
     apply (auto simp: failed_calls_append)
  done

lemma persisted_last_write:
  "persisted (xs @ [Called t (UpdateJobStatus j st f) True]) j = Some (st, f)"
  by (simp add: persisted_def status_writes_append)

text \<open>What a returning thread has done.\<close>

lemma run_work_returns:
  assumes "run_work e jid u = (Inr res, s')"
  shows "\<exists>j html plain chunks vectors added t.
      uuid_parse e jid = Inr j \<and>
      snd (fetch_url_content_sync e u) = Inr html \<and>
      snd (clean_html e html) = Inr plain \<and>
      snd (chunk_text e plain (CHUNK_SIZE e) (CHUNK_OVERLAP e)) = Inr chunks \<and>
      snd (add_documents e chunks vectors [(''source_url'', u)] jid) = Inr added \<and>
      res = \<lparr>job_id = jid, status = ''completed'', chunks_added = added\<rparr> \<and>
      AddDocuments chunks vectors [(''source_url'', u)] jid \<in> set (calls (trace s')) \<and>
      length vectors = vectors_produced e (trace s') \<and>
      length chunks = chunks_sent (trace s') \<and>
      persisted (trace s') j = Some (''completed'',
        no_fields\<lparr>chunk_count := Some (length chunks), completed_at := Some t\<rparr>) \<and>
      last (trace s') = Called (clock s') (UpdateJobStatus j ''completed''
        (no_fields\<lparr>chunk_count := Some (length chunks), completed_at := Some t\<rparr>)) True"
proof -
  from run_work_returns_shape [OF assms]
  obtain j html plain chunks vectors added s0 s1 t1 t2 t3 t4 where
    j: "uuid_parse e jid = Inr j"
    and html: "snd (fetch_url_content_sync e u) = Inr html"
    and plain: "snd (clean_html e html) = Inr plain"
    and chunks: "snd (chunk_text e plain (CHUNK_SIZE e) (CHUNK_OVERLAP e)) = Inr chunks"
    and added: "snd (add_documents e chunks vectors [(''source_url'', u)] jid) = Inr added"
    and res: "res = \<lparr>job_id = jid, status = ''completed'', chunks_added = added\<rparr>"
    and loop: "embed_loop e chunks 0 [] s0 = (Inr vectors, s1)"
    and s0: "failed_calls (trace s0) = []" "embed_batches (trace s0) = []"
    and s': "trace s' = trace s1 @
       [LogInfo t1 ''Storing in Qdrant'', Called t2 NewStore True,
        Called t3 CreateCollection True,
        Called t4 (AddDocuments chunks vectors [(''source_url'', u)] jid) True,
        LogInfo t4 ''Marking job as completed'',
        Called (clock s') (UpdateJobStatus j ''completed''
          (no_fields\<lparr>chunk_count := Some (length chunks), completed_at := Some t4\<rparr>)) True]"
    by blast
  from embed_loop_returns [OF loop] obtain es where
    es: "trace s1 = trace s0 @ es" "length vectors = vectors_produced e es"
      "chunks_sent es = length chunks"
    by auto
  have a: "AddDocuments chunks vectors [(''source_url'', u)] jid \<in> set (calls (trace s'))"
    by (simp add: s' calls_append)
  have v: "length vectors = vectors_produced e (trace s')"
    using es(2) s0(2)
    by (simp add: s' es(1) vectors_produced_append) (simp add: vectors_produced_def)
  have c: "length chunks = chunks_sent (trace s')"
    using es(3) s0(2)
    by (simp add: s' es(1) chunks_sent_append) (simp add: chunks_sent_def)
  have p: "persisted (trace s') j = Some (''completed'',
        no_fields\<lparr>chunk_count := Some (length chunks), completed_at := Some t4\<rparr>)"
    using persisted_last_write [of "trace s1 @
       [LogInfo t1 ''Storing in Qdrant'', Called t2 NewStore True,
        Called t3 CreateCollection True,
        Called t4 (AddDocuments chunks vectors [(''source_url'', u)] jid) True,
        LogInfo t4 ''Marking job as completed'']"]
    by (simp add: s')
  have l: "last (trace s') = Called (clock s') (UpdateJobStatus j ''completed''
        (no_fields\<lparr>chunk_count := Some (length chunks), completed_at := Some t4\<rparr>)) True"
    by (simp add: s')
  from j html plain chunks added res a v c p l show ?thesis by blast
qed

subsection \<open>A successful run\<close>

lemma run_returned:
  assumes "attempt e jid u = Inr res"
  shows "signal (process_url_ingestion self e jid u) = Returned res"
    and "status_writes (main_trace (process_url_ingestion self e jid u)) = []"
    and "calls (main_trace (process_url_ingestion self e jid u)) = []"
  using assms by (simp_all add: process_url_ingestion_def info_def Let_def)

lemma persisted_no_writes:
  "status_writes ys = [] \<Longrightarrow> persisted (xs @ ys) j = persisted xs j"
  by (simp add: persisted_def status_writes_append)

lemma no_failure_returns:
  assumes "uuid_parse e jid = Inr j"
    and "failed_calls (worker_trace (process_url_ingestion self e jid u)) = []"
  shows "\<exists>res. fst (run_work e jid u) = Inr res"
proof (cases "run_work e jid u")
  case (Pair r s')
  show ?thesis
  proof (cases r)
    case (Inl x)
    with Pair run_work_raises [of e jid u x s'] assms show ?thesis by simp
  next
    case (Inr res)
    with Pair show ?thesis by simp
  qed
qed

text \<open>
  Claim C1. For every execution with a valid \<^verbatim>\<open>job_id\<close> in which no collaborator call of the
  thread raises and the thread ends within the deadline: the page is fetched, cleaned and
  chunked, \<^verbatim>\<open>add_documents\<close> is called with those chunks, the caller gets the record
  \<open>{job_id, status = completed, chunks_added}\<close> where \<open>chunks_added\<close> is what that call
  returned, and after the run the persisted status of the job is "completed" with
  \<open>chunk_count\<close> the number of chunks.
\<close>

theorem successful_run_completes:
  assumes "uuid_parse e jid = Inr j"
    and "failed_calls (worker_trace (process_url_ingestion self e jid u)) = []"
    and "\<not> is_alive e jid u"
  shows "\<exists>html plain chunks vectors added t.
      snd (fetch_url_content_sync e u) = Inr html \<and>
      snd (clean_html e html) = Inr plain \<and>
      snd (chunk_text e plain (CHUNK_SIZE e) (CHUNK_OVERLAP e)) = Inr chunks \<and>
      AddDocuments chunks vectors [(''source_url'', u)] jid
        \<in> set (calls (worker_trace (process_url_ingestion self e jid u))) \<and>
      snd (add_documents e chunks vectors [(''source_url'', u)] jid) = Inr added \<and>
      signal (process_url_ingestion self e jid u) =
        Returned \<lparr>job_id = jid, status = ''completed'', chunks_added = added\<rparr> \<and>
      persisted (worker_trace (process_url_ingestion self e jid u) @
                 main_trace (process_url_ingestion self e jid u)) j =
        Some (''completed'',
          no_fields\<lparr>chunk_count := Some (length chunks), completed_at := Some t\<rparr>)"
proof -
  from no_failure_returns [OF assms(1,2)] obtain res where "fst (run_work e jid u) = Inr res"
    by blast
  then obtain s' where w: "run_work e jid u = (Inr res, s')"
    by (cases "run_work e jid u") simp
  then have a: "attempt e jid u = Inr res"
    using assms(3) by (simp add: attempt_def)
  from run_work_returns [OF w] assms(1)
  obtain html plain chunks vectors added t where
    f: "snd (fetch_url_content_sync e u) = Inr html"
      "snd (clean_html e html) = Inr plain"
      "snd (chunk_text e plain (CHUNK_SIZE e) (CHUNK_OVERLAP e)) = Inr chunks"
      "snd (add_documents e chunks vectors [(''source_url'', u)] jid) = Inr added"
      "res = \<lparr>job_id = jid, status = ''completed'', chunks_added = added\<rparr>"
      "AddDocuments chunks vectors [(''source_url'', u)] jid \<in> set (calls (trace s'))"
      "persisted (trace s') j = Some (''completed'',
         no_fields\<lparr>chunk_count := Some (length chunks), completed_at := Some t\<rparr>)"
    by auto
  have t: "trace (snd (run_work e jid u)) = trace s'"
    using w by simp
  have p: "persisted (worker_trace (process_url_ingestion self e jid u) @
                 main_trace (process_url_ingestion self e jid u)) j =
        Some (''completed'',
          no_fields\<lparr>chunk_count := Some (length chunks), completed_at := Some t\<rparr>)"
    using f(7) by (simp add: t persisted_no_writes [OF run_returned(2) [OF a]])
  from f(1-4) f(6) p run_returned(1) [OF a, of self] show ?thesis
    unfolding f(5) by (simp add: t) blast
qed

theorem successful_run_completes_witness:
  "uuid_parse demo good_id = Inr good_uuid \<and>
   failed_calls (worker_trace (process_url_ingestion (attempt_no 0) demo good_id ''http://x'')) = [] \<and>
   \<not> is_alive demo good_id ''http://x'' \<and>
   (\<exists>html plain chunks vectors added t.
      snd (fetch_url_content_sync demo ''http://x'') = Inr html \<and>
      snd (clean_html demo html) = Inr plain \<and>
      snd (chunk_text demo plain (CHUNK_SIZE demo) (CHUNK_OVERLAP demo)) = Inr chunks \<and>
      AddDocuments chunks vectors [(''source_url'', ''http://x'')] good_id
        \<in> set (calls (worker_trace (process_url_ingestion (attempt_no 0) demo good_id ''http://x''))) \<and>
      snd (add_documents demo chunks vectors [(''source_url'', ''http://x'')] good_id) = Inr added \<and>
      signal (process_url_ingestion (attempt_no 0) demo good_id ''http://x'') =
        Returned \<lparr>job_id = good_id, status = ''completed'', chunks_added = added\<rparr> \<and>
      persisted (worker_trace (process_url_ingestion (attempt_no 0) demo good_id ''http://x'') @
                 main_trace (process_url_ingestion (attempt_no 0) demo good_id ''http://x'')) good_uuid =
        Some (''completed'',
          no_fields\<lparr>chunk_count := Some (length chunks), completed_at := Some t\<rparr>)) \<and>
   signal (process_url_ingestion (attempt_no 0) demo good_id ''http://x'') =
     Returned \<lparr>job_id = good_id, status = ''completed'', chunks_added = 2\<rparr> \<and>
   persisted (worker_trace (process_url_ingestion (attempt_no 0) demo good_id ''http://x'') @
              main_trace (process_url_ingestion (attempt_no 0) demo good_id ''http://x'')) good_uuid =
     Some (''completed'', no_fields\<lparr>chunk_count := Some 2, completed_at := Some 8\<rparr>)"
proof -
  have p: "uuid_parse demo good_id = Inr good_uuid"
    by (simp add: demo_defs)
  have f: "failed_calls (worker_trace (process_url_ingestion (attempt_no 0) demo good_id ''http://x'')) = []"
    by (simp add: model_defs demo_defs embed_loop.simps)
  have a: "\<not> is_alive demo good_id ''http://x''"
    by (simp add: model_defs demo_defs embed_loop.simps)
  have s: "signal (process_url_ingestion (attempt_no 0) demo good_id ''http://x'') =
     Returned \<lparr>job_id = good_id, status = ''completed'', chunks_added = 2\<rparr>"
    by (simp add: model_defs demo_defs embed_loop.simps)
  have c: "persisted (worker_trace (process_url_ingestion (attempt_no 0) demo good_id ''http://x'') @
              main_trace (process_url_ingestion (attempt_no 0) demo good_id ''http://x'')) good_uuid =
     Some (''completed'', no_fields\<lparr>chunk_count := Some 2, completed_at := Some 8\<rparr>)"
    by (simp add: model_defs demo_defs embed_loop.simps persisted_def)
  from p f a s c successful_run_completes [OF p f a] show ?thesis by blast
qed

subsection \<open>A thread that outlives the deadline\<close>

lemma late_writes_last:
  "deadline < t \<Longrightarrow>
   late_writes (xs @ [Called t (UpdateJobStatus j st f) True]) =
     late_writes xs @ [(t, UpdateJobStatus j st f)]"
  by (simp add: late_writes_append)

lemma persisted_nonempty: "persisted es j = Some w \<Longrightarrow> es \<noteq> []"
  by (auto simp: persisted_def)

lemma merge_single:
  "\<forall>y\<in>set ys. stamp y < stamp x \<Longrightarrow> merge_by_time [x] ys = ys @ [x]"
  by (induction ys) auto

lemma merge_last:
  "\<forall>y\<in>set ys. stamp y < stamp x \<Longrightarrow>
   merge_by_time (xs @ [x]) ys = merge_by_time xs ys @ [x]"
proof (induction xs ys rule: merge_by_time.induct)
  case (1 ys)
  then show ?case by (simp add: merge_single)
next
  case (2 v va)
  then show ?case by simp
next
  case (3 x' xs y ys)
  then show ?case by simp
qed

lemma main_stamps_on_failure:
  assumes "attempt e jid u = Inl exc" and "uuid_parse e jid = Inr j"
  shows "\<forall>ev\<in>set (main_trace (process_url_ingestion self e jid u)).
     stamp ev \<le> min (clock (snd (run_work e jid u))) deadline +
       fst (update_job_status_sync e j ''failed''
         (no_fields\<lparr>error_message := Some (exn_str exc),
            error_traceback := Some (format_exc e exc)\<rparr>))"
  using assms
  by (auto simp: process_url_ingestion_def on_exception_def retry_or_raise_def Let_def
      and_then_def lift_def perform_def info_def error_def
      split: prod.splits sum.splits if_splits)

text \<open>
  Claim C2, as stated, fails: nothing in the code stops the thread or gates its writes.
  With a fetch of 301 seconds the join times out and the caller gets a retry for the
  timeout, while the thread goes on: its upsert is applied at second 307 and its
  "completed" status write at second 308, both after the deadline.
\<close>

theorem late_writes_are_applied:
  "is_alive slow_fetch good_id ''http://x'' \<and>
   signal (process_url_ingestion (attempt_no 0) slow_fetch good_id ''http://x'') =
     RetryAfter (Exn ''TimeoutError'' ''Ingestion task timed out'') 60 \<and>
   late_writes (worker_trace (process_url_ingestion (attempt_no 0) slow_fetch good_id ''http://x'')) =
     [(307, AddDocuments [''alpha'', ''beta''] [[5], [4]] [(''source_url'', ''http://x'')] good_id),
      (308, UpdateJobStatus good_uuid ''completed''
              (no_fields\<lparr>chunk_count := Some 2, completed_at := Some 307\<rparr>))]"
  by (simp add: model_defs demo_defs embed_loop.simps)

lemma main_resumes_at_deadline:
  assumes "is_alive e jid u"
  shows "LogError deadline ''Ingestion task failed''
     \<in> set (main_trace (process_url_ingestion self e jid u))"
  using attempt_alive [OF assms] assms
  by (auto simp: process_url_ingestion_def on_exception_def retry_or_raise_def Let_def
      and_then_def lift_def perform_def info_def error_def is_alive_def min_def
      split: prod.splits sum.splits)

lemma late_thread_writes:
  assumes "is_alive e jid u"
    and "fst (run_work e jid u) = Inr res"
  shows "signal (process_url_ingestion self e jid u) =
       (if current_retries self < max_retries self
        then RetryAfter timeout_error (60 * 2 ^ current_retries self)
        else Raised timeout_error) \<and>
     (\<exists>j n t. uuid_parse e jid = Inr j \<and> deadline < clock (snd (run_work e jid u)) \<and>
        late_writes (worker_trace (process_url_ingestion self e jid u)) \<noteq> [] \<and>
        last (late_writes (worker_trace (process_url_ingestion self e jid u))) =
          (clock (snd (run_work e jid u)), UpdateJobStatus j ''completed''
             (no_fields\<lparr>chunk_count := Some n, completed_at := Some t\<rparr>)) \<and>
        (deadline + fst (update_job_status_sync e j ''failed''
             (no_fields\<lparr>error_message := Some ''Ingestion task timed out'',
                error_traceback := Some (format_exc e timeout_error)\<rparr>))
           < clock (snd (run_work e jid u)) \<longrightarrow>
         persisted (timeline (process_url_ingestion self e jid u)) j =
           Some (''completed'', no_fields\<lparr>chunk_count := Some n, completed_at := Some t\<rparr>)))"
proof -
  obtain s' where w: "run_work e jid u = (Inr res, s')"
    using assms(2) by (cases "run_work e jid u") simp
  obtain j and chunks :: "string list" and t where j: "uuid_parse e jid = Inr j"
    and p: "persisted (trace s') j = Some (''completed'',
        no_fields\<lparr>chunk_count := Some (length chunks), completed_at := Some t\<rparr>)"
    and l: "last (trace s') = Called (clock s') (UpdateJobStatus j ''completed''
        (no_fields\<lparr>chunk_count := Some (length chunks), completed_at := Some t\<rparr>)) True"
    using run_work_returns [OF w] by (elim exE conjE) (rule that; assumption)
  let ?f = "no_fields\<lparr>chunk_count := Some (length chunks), completed_at := Some t\<rparr>"
  let ?r = "process_url_ingestion self e jid u"
  let ?d = "fst (update_job_status_sync e j ''failed''
             (no_fields\<lparr>error_message := Some ''Ingestion task timed out'',
                error_traceback := Some (format_exc e timeout_error)\<rparr>))"
  from persisted_nonempty [OF p] have "trace s' = butlast (trace s') @ [last (trace s')]"
    by simp
  with l have tr: "trace s' = butlast (trace s') @
      [Called (clock s') (UpdateJobStatus j ''completed'' ?f) True]"
    by simp
  have d: "deadline < clock s'"
    using assms(1) w by (simp add: is_alive_def)
  have lw: "late_writes (trace s') = late_writes (butlast (trace s')) @
      [(clock s', UpdateJobStatus j ''completed'' ?f)]"
    by (subst tr) (rule late_writes_last [OF d])
  have wt: "worker_trace ?r = trace s'"
    using w by simp
  have c: "clock (snd (run_work e jid u)) = clock s'"
    using w by simp
  note a = attempt_alive [OF assms(1)]
  have m: "exn_str timeout_error = ''Ingestion task timed out''"
    by (simp add: timeout_error_def)
  have tl: "persisted (timeline ?r) j = Some (''completed'', ?f)" if "deadline + ?d < clock s'"
  proof -
    have "\<forall>ev\<in>set (main_trace ?r). stamp ev < clock s'"
      using main_stamps_on_failure [OF a j, of self] that d by (auto simp: m c)
    then have "\<forall>ev\<in>set (main_trace ?r).
        stamp ev < stamp (Called (clock s') (UpdateJobStatus j ''completed'' ?f) True)"
      by simp
    from merge_last [OF this, of "butlast (trace s')"]
    have "timeline ?r = merge_by_time (butlast (trace s')) (main_trace ?r) @
        [Called (clock s') (UpdateJobStatus j ''completed'' ?f) True]"
      unfolding timeline_def wt by (subst tr) simp
    then show ?thesis
      by (simp add: persisted_last_write)
  qed
  have s: "signal ?r =
       (if current_retries self < max_retries self
        then RetryAfter timeout_error (60 * 2 ^ current_retries self)
        else Raised timeout_error)"
    by (rule signal_on_failure [OF a])
  have "uuid_parse e jid = Inr j \<and> deadline < clock s' \<and>
        late_writes (trace s') \<noteq> [] \<and>
        last (late_writes (trace s')) = (clock s', UpdateJobStatus j ''completed'' ?f) \<and>
        (deadline + ?d < clock s' \<longrightarrow> persisted (timeline ?r) j = Some (''completed'', ?f))"
    using j d lw tl by simp
  then have "\<exists>j n t. uuid_parse e jid = Inr j \<and> deadline < clock s' \<and>
        late_writes (trace s') \<noteq> [] \<and>
        last (late_writes (trace s')) = (clock s', UpdateJobStatus j ''completed''
             (no_fields\<lparr>chunk_count := Some n, completed_at := Some t\<rparr>)) \<and>
        (deadline + fst (update_job_status_sync e j ''failed''
             (no_fields\<lparr>error_message := Some ''Ingestion task timed out'',
                error_traceback := Some (format_exc e timeout_error)\<rparr>)) < clock s' \<longrightarrow>
         persisted (timeline ?r) j =
           Some (''completed'', no_fields\<lparr>chunk_count := Some n, completed_at := Some t\<rparr>))"
    by (intro exI)
  with s show ?thesis
    unfolding wt c by (rule conjI)
qed

text \<open>
  Claim C2, amended. For every execution in which the join times out, the main thread stops
  waiting: it goes on at second 300 and treats the attempt as the timeout error, which it
  retries under the usual policy, so the result of the thread is never returned. The
  thread itself is not stopped and its writes are not gated: if it runs to its end, it has
  applied writes after the deadline, the last of them the "completed" status write at the
  time the thread ends, and when that is later than the end of the main thread's "failed"
  report, "completed" is the status the job is left with.
\<close>

theorem late_thread_still_writes:
  assumes "is_alive e jid u"
  shows "signal (process_url_ingestion self e jid u) =
       (if current_retries self < max_retries self
        then RetryAfter timeout_error (60 * 2 ^ current_retries self)
        else Raised timeout_error) \<and>
     LogError deadline ''Ingestion task failed''
       \<in> set (main_trace (process_url_ingestion self e jid u)) \<and>
     (\<forall>res. fst (run_work e jid u) = Inr res \<longrightarrow>
        (\<exists>j n t. uuid_parse e jid = Inr j \<and> deadline < clock (snd (run_work e jid u)) \<and>
           late_writes (worker_trace (process_url_ingestion self e jid u)) \<noteq> [] \<and>
           last (late_writes (worker_trace (process_url_ingestion self e jid u))) =
             (clock (snd (run_work e jid u)), UpdateJobStatus j ''completed''
                (no_fields\<lparr>chunk_count := Some n, completed_at := Some t\<rparr>)) \<and>
           (deadline + fst (update_job_status_sync e j ''failed''
                (no_fields\<lparr>error_message := Some ''Ingestion task timed out'',
                   error_traceback := Some (format_exc e timeout_error)\<rparr>))
              < clock (snd (run_work e jid u)) \<longrightarrow>
            persisted (timeline (process_url_ingestion self e jid u)) j =
              Some (''completed'', no_fields\<lparr>chunk_count := Some n, completed_at := Some t\<rparr>))))"
proof (intro conjI allI impI)
  show "signal (process_url_ingestion self e jid u) =
       (if current_retries self < max_retries self
        then RetryAfter timeout_error (60 * 2 ^ current_retries self)
        else Raised timeout_error)"
    by (rule signal_on_failure [OF attempt_alive [OF assms]])
  show "LogError deadline ''Ingestion task failed''
       \<in> set (main_trace (process_url_ingestion self e jid u))"
    by (rule main_resumes_at_deadline [OF assms])
next
  fix res
  assume "fst (run_work e jid u) = Inr res"
  from late_thread_writes [OF assms this, of self]
  show "\<exists>j n t. uuid_parse e jid = Inr j \<and> deadline < clock (snd (run_work e jid u)) \<and>
           late_writes (worker_trace (process_url_ingestion self e jid u)) \<noteq> [] \<and>
           last (late_writes (worker_trace (process_url_ingestion self e jid u))) =
             (clock (snd (run_work e jid u)), UpdateJobStatus j ''completed''
                (no_fields\<lparr>chunk_count := Some n, completed_at := Some t\<rparr>)) \<and>
           (deadline + fst (update_job_status_sync e j ''failed''
                (no_fields\<lparr>error_message := Some ''Ingestion task timed out'',
                   error_traceback := Some (format_exc e timeout_error)\<rparr>))
              < clock (snd (run_work e jid u)) \<longrightarrow>
            persisted (timeline (process_url_ingestion self e jid u)) j =
              Some (''completed'', no_fields\<lparr>chunk_count := Some n, completed_at := Some t\<rparr>))"
    by (rule conjunct2)
qed

theorem late_thread_still_writes_witness:
  "is_alive slow_fetch good_id ''http://x'' \<and>
   fst (run_work slow_fetch good_id ''http://x'') =
     Inr \<lparr>job_id = good_id, status = ''completed'', chunks_added = 2\<rparr> \<and>
   signal (process_url_ingestion (attempt_no 3) slow_fetch good_id ''http://x'') =
     Raised (Exn ''TimeoutError'' ''Ingestion task timed out'') \<and>
   LogError 300 ''Ingestion task failed''
     \<in> set (main_trace (process_url_ingestion (attempt_no 3) slow_fetch good_id ''http://x'')) \<and>
   clock (snd (run_work slow_fetch good_id ''http://x'')) = 308 \<and>
   (\<exists>n t. last (late_writes (worker_trace (process_url_ingestion (attempt_no 3) slow_fetch good_id ''http://x''))) =
      (308, UpdateJobStatus good_uuid ''completed''
         (no_fields\<lparr>chunk_count := Some n, completed_at := Some t\<rparr>)) \<and>
      persisted (timeline (process_url_ingestion (attempt_no 3) slow_fetch good_id ''http://x'')) good_uuid =
        Some (''completed'', no_fields\<lparr>chunk_count := Some n, completed_at := Some t\<rparr>))"
proof -
  have a: "is_alive slow_fetch good_id ''http://x''"
    by (simp add: model_defs demo_defs embed_loop.simps)
  have r: "fst (run_work slow_fetch good_id ''http://x'') =
     Inr \<lparr>job_id = good_id, status = ''completed'', chunks_added = 2\<rparr>"
    by (simp add: model_defs demo_defs embed_loop.simps)
  have c: "clock (snd (run_work slow_fetch good_id ''http://x'')) = 308"
    by (simp add: model_defs demo_defs embed_loop.simps)
  have p: "uuid_parse slow_fetch good_id = Inr good_uuid"
    by (simp add: demo_defs)
  have d: "fst (update_job_status_sync slow_fetch j st f) = 1" for j st f
    by (simp add: demo_defs)
  show ?thesis
    using a r c p late_thread_still_writes [OF a, of "attempt_no 3"]
    by (auto simp: attempt_no_def celery_task_def current_retries_def timeout_error_def d
        deadline_def)
qed

subsection \<open>Vectors and chunks that differ in number\<close>

text \<open>
  Claim C6, as stated, fails: the code never compares the two counts. With an Embedder
  that returns no vector for a batch of two chunks, the two chunks are upserted with an
  empty list of vectors, the caller gets the "completed" record, and the persisted status
  is "completed".
\<close>

theorem mismatch_is_upserted:
  "chunks_sent (worker_trace (process_url_ingestion (attempt_no 0) short_embedder good_id ''http://x'')) = 2 \<and>
   vectors_produced short_embedder
     (worker_trace (process_url_ingestion (attempt_no 0) short_embedder good_id ''http://x'')) = 0 \<and>
   AddDocuments [''alpha'', ''beta''] [] [(''source_url'', ''http://x'')] good_id
     \<in> set (calls (worker_trace (process_url_ingestion (attempt_no 0) short_embedder good_id ''http://x''))) \<and>
   signal (process_url_ingestion (attempt_no 0) short_embedder good_id ''http://x'') =
     Returned \<lparr>job_id = good_id, status = ''completed'', chunks_added = 0\<rparr> \<and>
   persisted (worker_trace (process_url_ingestion (attempt_no 0) short_embedder good_id ''http://x'') @
              main_trace (process_url_ingestion (attempt_no 0) short_embedder good_id ''http://x'')) good_uuid =
     Some (''completed'', no_fields\<lparr>chunk_count := Some 2, completed_at := Some 8\<rparr>)"
  by (simp add: model_defs demo_defs embed_loop.simps persisted_def chunks_sent_def
      vectors_produced_def embedded_def)

text \<open>
  Claim C6, amended. For every execution with a valid \<^verbatim>\<open>job_id\<close> in which no collaborator
  call raises, the thread ends within the deadline, and the number of vectors the Embedder
  returned differs from the number of chunks sent to it: the mismatch goes unnoticed. The
  chunks are passed to \<^verbatim>\<open>add_documents\<close> with the list of vectors of another length, the
  caller gets the "completed" record, and the persisted status is "completed" with
  \<open>chunk_count\<close> the number of chunks.
\<close>

theorem mismatch_goes_unnoticed:
  assumes "uuid_parse e jid = Inr j"
    and "failed_calls (worker_trace (process_url_ingestion self e jid u)) = []"
    and "\<not> is_alive e jid u"
    and "vectors_produced e (worker_trace (process_url_ingestion self e jid u)) \<noteq>
         chunks_sent (worker_trace (process_url_ingestion self e jid u))"
  shows "\<exists>chunks vectors added t.
      length vectors \<noteq> length chunks \<and>
      AddDocuments chunks vectors [(''source_url'', u)] jid
        \<in> set (calls (worker_trace (process_url_ingestion self e jid u))) \<and>
      signal (process_url_ingestion self e jid u) =
        Returned \<lparr>job_id = jid, status = ''completed'', chunks_added = added\<rparr> \<and>
      persisted (worker_trace (process_url_ingestion self e jid u) @
                 main_trace (process_url_ingestion self e jid u)) j =
        Some (''completed'',
          no_fields\<lparr>chunk_count := Some (length chunks), completed_at := Some t\<rparr>)"
proof -
  from no_failure_returns [OF assms(1,2)] obtain res where "fst (run_work e jid u) = Inr res"
    by blast
  then obtain s' where w: "run_work e jid u = (Inr res, s')"
    by (cases "run_work e jid u") simp
  then have a: "attempt e jid u = Inr res"
    using assms(3) by (simp add: attempt_def)
  have t: "trace (snd (run_work e jid u)) = trace s'"
    using w by simp
  from run_work_returns [OF w] assms(1)
  obtain chunks vectors added t where
    f: "res = \<lparr>job_id = jid, status = ''completed'', chunks_added = added\<rparr>"
      "AddDocuments chunks vectors [(''source_url'', u)] jid \<in> set (calls (trace s'))"
      "length vectors = vectors_produced e (trace s')"
      "length chunks = chunks_sent (trace s')"
      "persisted (trace s') j = Some (''completed'',
         no_fields\<lparr>chunk_count := Some (length chunks), completed_at := Some t\<rparr>)"
    by auto
  have n: "length vectors \<noteq> length chunks"
    using assms(4) f(3,4) by (simp add: t)
  have p: "persisted (worker_trace (process_url_ingestion self e jid u) @
                 main_trace (process_url_ingestion self e jid u)) j =
        Some (''completed'',
          no_fields\<lparr>chunk_count := Some (length chunks), completed_at := Some t\<rparr>)"
    using f(5) by (simp add: t persisted_no_writes [OF run_returned(2) [OF a]])
  from n f(2) p run_returned(1) [OF a, of self] show ?thesis
    unfolding f(1) by (simp add: t) blast
qed

theorem mismatch_goes_unnoticed_witness:
  "uuid_parse short_embedder good_id = Inr good_uuid \<and>
   failed_calls (worker_trace (process_url_ingestion (attempt_no 0) short_embedder good_id ''http://x'')) = [] \<and>
   \<not> is_alive short_embedder good_id ''http://x'' \<and>
   vectors_produced short_embedder
     (worker_trace (process_url_ingestion (attempt_no 0) short_embedder good_id ''http://x'')) \<noteq>
   chunks_sent (worker_trace (process_url_ingestion (attempt_no 0) short_embedder good_id ''http://x'')) \<and>
   (\<exists>chunks vectors added t.
      length vectors \<noteq> length chunks \<and>
      AddDocuments chunks vectors [(''source_url'', ''http://x'')] good_id
        \<in> set (calls (worker_trace (process_url_ingestion (attempt_no 0) short_embedder good_id ''http://x''))) \<and>
      signal (process_url_ingestion (attempt_no 0) short_embedder good_id ''http://x'') =
        Returned \<lparr>job_id = good_id, status = ''completed'', chunks_added = added\<rparr> \<and>
      persisted (worker_trace (process_url_ingestion (attempt_no 0) short_embedder good_id ''http://x'') @
                 main_trace (process_url_ingestion (attempt_no 0) short_embedder good_id ''http://x'')) good_uuid =
        Some (''completed'',
          no_fields\<lparr>chunk_count := Some (length chunks), completed_at := Some t\<rparr>))"
proof -
  have p: "uuid_parse short_embedder good_id = Inr good_uuid"
    by (simp add: demo_defs)
  have f: "failed_calls (worker_trace (process_url_ingestion (attempt_no 0) short_embedder good_id ''http://x'')) = []"
    by (simp add: model_defs demo_defs embed_loop.simps)
  have a: "\<not> is_alive short_embedder good_id ''http://x''"
    by (simp add: model_defs demo_defs embed_loop.simps)
  have m: "vectors_produced short_embedder
     (worker_trace (process_url_ingestion (attempt_no 0) short_embedder good_id ''http://x'')) \<noteq>
   chunks_sent (worker_trace (process_url_ingestion (attempt_no 0) short_embedder good_id ''http://x''))"
    by (simp add: model_defs demo_defs embed_loop.simps chunks_sent_def vectors_produced_def
        embedded_def)
  from p f a m mismatch_goes_unnoticed [OF p f a m] show ?thesis by blast
qed

subsection \<open>The collection is ensured before the upsert\<close>

lemma embeds_guarded: "list_all is_embed es \<Longrightarrow> upsert_guarded g es"
  using embeds_upsert_guarded [of es g "[]"] by simp

lemma worker_guarded:
  "run_work e jid u = (r, s') \<Longrightarrow> upsert_guarded False (trace s')"
  unfolding run_work_def work_def
  apply (simp add: work_steps split: sum.splits)
        apply (auto)[6]
  apply (erule and_thenE)
   apply (drule embed_loop_trace)
   apply (auto simp: embeds_guarded)[1]
  apply (drule embed_loop_trace)
  apply (simp add: work_steps lift_def split: sum.splits)
     apply (auto simp: embeds_upsert_guarded)
  done

lemma main_guarded:
  "upsert_guarded False (main_trace (process_url_ingestion self e jid u))"
  by (auto simp: process_url_ingestion_def on_exception_def retry_or_raise_def Let_def
      and_then_def lift_def perform_def info_def error_def
      split: prod.splits sum.splits)

lemma guarded_tail:
  assumes "upsert_guarded g (ev # es)"
  shows "upsert_guarded (g \<or> (\<exists>t. ev = Called t CreateCollection True)) es"
proof (cases ev)
  case (Called t c ok)
  with assms show ?thesis by (cases c) auto
qed (use assms in simp_all)

lemma guarded_nth:
  "upsert_guarded g es \<Longrightarrow> i < length es \<Longrightarrow>
   es ! i = Called t (AddDocuments cs vs m j) ok \<Longrightarrow>
   g \<or> (\<exists>k<i. \<exists>t'. es ! k = Called t' CreateCollection True)"
proof (induction es arbitrary: g i)
  case Nil
  then show ?case by simp
next
  case (Cons ev es)
  show ?case
  proof (cases i)
    case 0
    with Cons.prems show ?thesis by simp
  next
    case (Suc n)
    with Cons.prems have n: "n < length es" "es ! n = Called t (AddDocuments cs vs m j) ok"
      by simp_all
    from Cons.IH [OF guarded_tail [OF Cons.prems(1)] n]
    consider "g" | t' where "ev = Called t' CreateCollection True"
      | k t' where "k < n" "es ! k = Called t' CreateCollection True"
      by blast
    then show ?thesis
    proof cases
      case 1
      then show ?thesis by simp
    next
      case 2
      then have "(ev # es) ! 0 = Called t' CreateCollection True" by simp
      with Suc show ?thesis by blast
    next
      case 3
      then have "Suc k < i" "(ev # es) ! Suc k = Called t' CreateCollection True"
        using Suc by simp_all
      then show ?thesis by blast
    qed
  qed
qed

text \<open>
  Claim C10. In every invocation, whatever the attempt count: scanning the thread's trace,
  every call of \<^verbatim>\<open>add_documents\<close> comes after a call of
  \<^verbatim>\<open>create_collection_if_not_exists\<close> that returned, and the main thread never upserts.
\<close>

theorem collection_ensured_before_upsert:
  "upsert_guarded False (worker_trace (process_url_ingestion self e jid u)) \<and>
   (\<forall>i<length (worker_trace (process_url_ingestion self e jid u)). \<forall>t cs vs m j ok.
      worker_trace (process_url_ingestion self e jid u) ! i = Called t (AddDocuments cs vs m j) ok \<longrightarrow>
      (\<exists>k<i. \<exists>t'. worker_trace (process_url_ingestion self e jid u) ! k =
         Called t' CreateCollection True)) \<and>
   upsert_guarded False (main_trace (process_url_ingestion self e jid u)) \<and>
   (\<forall>cs vs m j. AddDocuments cs vs m j
      \<notin> set (calls (main_trace (process_url_ingestion self e jid u))))"
proof -
  have w: "upsert_guarded False (trace (snd (run_work e jid u)))"
    using worker_guarded [of e jid u "fst (run_work e jid u)" "snd (run_work e jid u)"]
    by simp
  have m: "AddDocuments cs vs m j \<notin> set (calls (main_trace (process_url_ingestion self e jid u)))"
    for cs vs m j
    by (auto simp: process_url_ingestion_def on_exception_def retry_or_raise_def Let_def
        and_then_def lift_def perform_def info_def error_def
        split: prod.splits sum.splits)
  from w guarded_nth [OF w] main_guarded [of self e jid u] m show ?thesis
    by simp
qed

theorem collection_ensured_before_upsert_witness:
  "worker_trace (process_url_ingestion (attempt_no 1) demo good_id ''http://x'') ! 15 =
     Called 8 (AddDocuments [''alpha'', ''beta''] [[5], [4]] [(''source_url'', ''http://x'')] good_id) True \<and>
   (\<exists>k<15. \<exists>t'. worker_trace (process_url_ingestion (attempt_no 1) demo good_id ''http://x'') ! k =
      Called t' CreateCollection True) \<and>
   upsert_guarded False (worker_trace (process_url_ingestion (attempt_no 1) demo good_id ''http://x'')) \<and>
   \<not> upsert_guarded False
     [Called 1 (AddDocuments [''alpha''] [[5]] [] good_id) True, Called 2 CreateCollection True]"
proof -
  have a: "worker_trace (process_url_ingestion (attempt_no 1) demo good_id ''http://x'') ! 15 =
     Called 8 (AddDocuments [''alpha'', ''beta''] [[5], [4]] [(''source_url'', ''http://x'')] good_id) True"
    by (simp add: model_defs demo_defs embed_loop.simps)
  have l: "15 < length (worker_trace (process_url_ingestion (attempt_no 1) demo good_id ''http://x''))"
    by (simp add: model_defs demo_defs embed_loop.simps)
  note c = collection_ensured_before_upsert [of "attempt_no 1" demo good_id "''http://x''"]
  from c have g: "upsert_guarded False
      (worker_trace (process_url_ingestion (attempt_no 1) demo good_id ''http://x''))"
    by (rule conjunct1)
  from c a l have k: "\<exists>k<15. \<exists>t'.
      worker_trace (process_url_ingestion (attempt_no 1) demo good_id ''http://x'') ! k =
        Called t' CreateCollection True"
    by blast
  have n: "\<not> upsert_guarded False
     [Called 1 (AddDocuments [''alpha''] [[5]] [] good_id) True, Called 2 CreateCollection True]"
    by simp
  from a k g n show ?thesis by (intro conjI)
qed

subsection \<open>The batches of the embedding stage\<close>

lemma batch_index:
  fixes k n :: nat
  shows "k * 100 < n \<longleftrightarrow> k < (n + 99) div 100"
proof -
  have "k < (n + 99) div 100 \<longleftrightarrow> Suc k \<le> (n + 99) div 100"
    by (simp add: Suc_le_eq)
  also have "\<dots> \<longleftrightarrow> Suc k * 100 \<le> n + 99"
    by (simp add: less_eq_div_iff_mult_less_eq)
  also have "\<dots> \<longleftrightarrow> k * 100 < n"
    by auto
  finally show ?thesis by simp
qed

lemma ceil_batches: "int ((n + 99) div 100) = \<lceil>real n / 100\<rceil>"
proof -
  have "real n / 100 \<le> real ((n + 99) div 100)"
  proof -
    have "n \<le> ((n + 99) div 100) * 100"
      using batch_index [of "(n + 99) div 100" n] by simp
    then have "real n \<le> real (((n + 99) div 100) * 100)"
      using of_nat_le_iff by blast
    then show ?thesis by simp
  qed
  moreover have "real ((n + 99) div 100) - 1 < real n / 100"
  proof (cases "(n + 99) div 100")
    case 0
    then show ?thesis by simp
  next
    case (Suc k)
    then have "k < (n + 99) div 100" by simp
    then have "k * 100 < n" by (simp add: batch_index)
    then have "real (k * 100) < real n"
      using of_nat_less_iff by blast
    with Suc show ?thesis by simp
  qed
  ultimately have "\<lceil>real n / 100\<rceil> = int ((n + 99) div 100)"
    by (intro ceiling_unique) simp_all
  then show ?thesis by simp
qed

lemma embed_loop_batches:
  "embed_loop e c i v s = (Inr vs, s') \<Longrightarrow>
     \<exists>es. trace s' = trace s @ es \<and> list_all is_embed es \<and> failed_calls es = [] \<and>
       length es = (length c - i + 99) div 100 \<and>
       embed_batches es = map (\<lambda>k. take batch_size (drop (i + k * batch_size) c)) [0..<length es] \<and>
       vs = v @ concat (map (embedded e) (embed_batches es))"
proof (induction e c i v s arbitrary: vs rule: embed_loop.induct)
  case (1 e chunks i vectors s)
  show ?case
  proof (cases "i < length chunks")
    case False
    with "1.prems" show ?thesis
      by (simp add: embed_loop.simps)
  next
    case True
    let ?b = "take batch_size (drop i chunks)"
    obtain r s1 where p: "perform (EmbedDocuments ?b) (embed_documents e ?b) s = (r, s1)"
      by (cases "perform (EmbedDocuments ?b) (embed_documents e ?b) s")
    then have t1: "trace s1 = trace s @ [Called (clock s1) (EmbedDocuments ?b) (returned r)]"
      and r: "r = snd (embed_documents e ?b)"
      by (auto simp: perform_def Let_def)
    show ?thesis
    proof (cases r)
      case (Inl a)
      with True p "1.prems" show ?thesis by (simp add: embed_loop.simps [of e chunks i])
    next
      case (Inr bv)
      with True p "1.prems" have "embed_loop e chunks (i + batch_size) (vectors @ bv) s1 = (Inr vs, s')"
        by (simp add: embed_loop.simps [of e chunks i])
      from "1.IH" [OF True refl p [symmetric] Inr this]
      obtain es where es: "trace s' = trace s1 @ es" "list_all is_embed es" "failed_calls es = []"
        "length es = (length chunks - (i + batch_size) + 99) div 100"
        "embed_batches es =
           map (\<lambda>k. take batch_size (drop (i + batch_size + k * batch_size) chunks)) [0..<length es]"
        "vs = (vectors @ bv) @ concat (map (embedded e) (embed_batches es))"
        by blast
      let ?ev = "Called (clock s1) (EmbedDocuments ?b) (returned r)"
      have bv: "embedded e ?b = bv"
        using r [symmetric] Inr by (simp add: embedded_def)
      have n: "length (?ev # es) = (length chunks - i + 99) div 100"
        using es(4) ceil_step [OF True] by (simp add: batch_size_def)
      have b: "embed_batches (?ev # es) =
          map (\<lambda>k. take batch_size (drop (i + k * batch_size) chunks)) [0..<length (?ev # es)]"
        using es(5) by (simp add: map_upt_Suc add.assoc del: upt_Suc)
      have "trace s' = trace s @ (?ev # es)"
        using es(1) t1 by simp
      moreover have "list_all is_embed (?ev # es)"
        using es(2) by simp
      moreover have "failed_calls (?ev # es) = []"
        using es(3) Inr by (simp add: returned_def)
      moreover have "vs = vectors @ concat (map (embedded e) (embed_batches (?ev # es)))"
        using es(6) bv by simp
      ultimately show ?thesis using n b by blast
    qed
  qed
qed

lemma embed_loop_positions:
  assumes "embed_loop e c i v s = (Inr vs, s')"
    and "\<And>k. i + k * batch_size < length c \<Longrightarrow>
           length (embedded e (take batch_size (drop (i + k * batch_size) c))) =
           length (take batch_size (drop (i + k * batch_size) c))"
  shows "length vs = length v + (length c - i) \<and>
     (\<forall>p<length c - i. vs ! (length v + p) =
        embedded e (take batch_size (drop (i + (p div batch_size) * batch_size) c)) ! (p mod batch_size))"
  using assms
proof (induction e c i v s arbitrary: vs rule: embed_loop.induct)
  case (1 e chunks i vectors s)
  show ?case
  proof (cases "i < length chunks")
    case False
    with "1.prems"(1) show ?thesis
      by (simp add: embed_loop.simps)
  next
    case True
    let ?b = "take batch_size (drop i chunks)"
    obtain r s1 where p: "perform (EmbedDocuments ?b) (embed_documents e ?b) s = (r, s1)"
      by (cases "perform (EmbedDocuments ?b) (embed_documents e ?b) s")
    then have r: "r = snd (embed_documents e ?b)"
      by (auto simp: perform_def Let_def)
    show ?thesis
    proof (cases r)
      case (Inl a)
      with True p "1.prems"(1) show ?thesis by (simp add: embed_loop.simps [of e chunks i])
    next
      case (Inr bv)
      with True p "1.prems"(1)
      have rec: "embed_loop e chunks (i + batch_size) (vectors @ bv) s1 = (Inr vs, s')"
        by (simp add: embed_loop.simps [of e chunks i])
      have bv: "embedded e ?b = bv"
        using r [symmetric] Inr by (simp add: embedded_def)
      have lb: "length bv = min batch_size (length chunks - i)"
        using "1.prems"(2) [of 0] True bv by simp
      have contract: "length (embedded e (take batch_size (drop (i + batch_size + k * batch_size) chunks))) =
           length (take batch_size (drop (i + batch_size + k * batch_size) chunks))"
        if "i + batch_size + k * batch_size < length chunks" for k
        using "1.prems"(2) [of "Suc k"] that by (simp add: add.assoc)
      from "1.IH" [OF True refl p [symmetric] Inr rec contract]
      have ih: "length vs = length (vectors @ bv) + (length chunks - (i + batch_size))"
        and ihp: "\<And>q. q < length chunks - (i + batch_size) \<Longrightarrow>
          vs ! (length (vectors @ bv) + q) =
          embedded e (take batch_size (drop (i + batch_size + (q div batch_size) * batch_size) chunks))
            ! (q mod batch_size)"
        by simp_all
      from embed_loop_batches [OF rec] obtain X where vsX: "vs = (vectors @ bv) @ X"
        by blast
      have len: "length vs = length vectors + (length chunks - i)"
        using ih lb True by (simp add: batch_size_def)
      have pos: "vs ! (length vectors + q) =
          embedded e (take batch_size (drop (i + (q div batch_size) * batch_size) chunks))
            ! (q mod batch_size)" if q: "q < length chunks - i" for q
      proof (cases "q < batch_size")
        case True
        with q lb have "q < length bv" by simp
        then have "vs ! (length vectors + q) = bv ! q"
          by (simp add: vsX nth_append)
        with True bv show ?thesis by simp
      next
        case False
        define q' where "q' = q - batch_size"
        with False have q': "q = q' + batch_size"
          by simp
        with q have a: "q' < length chunks - (i + batch_size)" by simp
        from q q' have "length bv = batch_size"
          using lb by simp
        with ihp [OF a] have "vs ! (length vectors + q) =
          embedded e (take batch_size (drop (i + batch_size + (q' div batch_size) * batch_size) chunks))
            ! (q' mod batch_size)"
          by (simp add: q' ac_simps)
        moreover have "q div batch_size = Suc (q' div batch_size)" "q mod batch_size = q' mod batch_size"
          by (simp_all add: q' batch_size_def)
        ultimately show ?thesis by (simp add: add.assoc)
      qed
      from len pos show ?thesis by simp
    qed
  qed
qed


text \<open>
  Claim C9, as stated, fails for an execution in which an Embedder call raises: the loop
  stops at that call. With 150 chunks and an Embedder that raises, one call is made, not
  \<open>ceil(150 / 100) = 2\<close>, and there is no vector sequence: the attempt fails with the
  Embedder's exception. Nor does the code make the vector sequence as long as the list of
  chunks: with an Embedder that returns no vector for a batch of two chunks, the stage
  completes with the empty sequence.
\<close>

theorem embedding_stops_at_failure:
  "snd (chunk_text embedder_down ''alpha beta'' (CHUNK_SIZE embedder_down) (CHUNK_OVERLAP embedder_down)) =
     Inr (replicate 150 ''c'') \<and>
   \<lceil>real (length (replicate 150 ''c'')) / real batch_size\<rceil> = 2 \<and>
   embed_batches (worker_trace (process_url_ingestion (attempt_no 0) embedder_down good_id ''http://x'')) =
     [replicate 100 ''c''] \<and>
   failed_calls (worker_trace (process_url_ingestion (attempt_no 0) embedder_down good_id ''http://x'')) =
     [EmbedDocuments (replicate 100 ''c'')] \<and>
   signal (process_url_ingestion (attempt_no 0) embedder_down good_id ''http://x'') =
     RetryAfter (Exn ''EmbeddingError'' ''quota exceeded'') 60 \<and>
   embed_loop short_embedder [''alpha'', ''beta''] 0 [] \<lparr>clock = 0, trace = []\<rparr> =
     (Inr [], \<lparr>clock = 3, trace = [Called 3 (EmbedDocuments [''alpha'', ''beta'']) True]\<rparr>)"
  by (simp add: model_defs demo_defs long_page_def embedder_down_def embed_loop.simps)

text \<open>
  Claim C9, amended. For every run of the embedding stage (lines 62 to 67) on \<open>N\<close> chunks
  that completes, that is, in which no Embedder call raises: the stage makes exactly
  \<open>ceil(N / 100)\<close> calls, all of them to the Embedder, call \<open>k\<close> (from 0) with the slice
  \<^verbatim>\<open>chunks[100 * k : 100 * k + 100]\<close>, and the vector sequence is the concatenation of the
  replies in that order. If every reply has as many vectors as its batch has chunks (the
  invariant of an EmbeddingBatch), the sequence has length \<open>N\<close>, and chunk \<open>p\<close> and vector
  \<open>p\<close> are at the same place, \<open>p mod 100\<close>, of batch \<open>p div 100\<close> and of the reply to it.
\<close>

theorem embedding_in_batches:
  assumes "embed_loop e chunks 0 [] s = (Inr vectors, s')"
  shows "\<exists>es. trace s' = trace s @ es \<and> list_all is_embed es \<and> failed_calls es = [] \<and>
     int (length es) = \<lceil>real (length chunks) / real batch_size\<rceil> \<and>
     embed_batches es =
       map (\<lambda>k. take batch_size (drop (k * batch_size) chunks)) [0..<length es] \<and>
     vectors = concat (map (embedded e) (embed_batches es)) \<and>
     ((\<forall>b\<in>set (embed_batches es). length (embedded e b) = length b) \<longrightarrow>
        length vectors = length chunks \<and>
        (\<forall>p<length chunks.
           chunks ! p = embed_batches es ! (p div batch_size) ! (p mod batch_size) \<and>
           vectors ! p = embedded e (embed_batches es ! (p div batch_size)) ! (p mod batch_size)))"
proof -
  from embed_loop_batches [OF assms] obtain es where
    es: "trace s' = trace s @ es" "list_all is_embed es" "failed_calls es = []"
      "length es = (length chunks + 99) div 100"
      "embed_batches es =
         map (\<lambda>k. take batch_size (drop (k * batch_size) chunks)) [0..<length es]"
      "vectors = concat (map (embedded e) (embed_batches es))"
    by auto
  have n: "int (length es) = \<lceil>real (length chunks) / real batch_size\<rceil>"
    using ceil_batches [of "length chunks"] es(4) by (simp add: batch_size_def)
  have lb: "length (embed_batches es) = length es"
    by (subst es(5)) simp
  have batch: "embed_batches es ! k = take batch_size (drop (k * batch_size) chunks)"
    if "k * batch_size < length chunks" for k
  proof -
    from that have "k < length es"
      using batch_index [of k "length chunks"] es(4) by (simp add: batch_size_def)
    then show ?thesis
      by (subst es(5)) simp
  qed
  have member: "embed_batches es ! k \<in> set (embed_batches es)"
    if "k * batch_size < length chunks" for k
  proof -
    from that have "k < length es"
      using batch_index [of k "length chunks"] es(4) by (simp add: batch_size_def)
    with lb show ?thesis by simp
  qed
  have block: "(p div batch_size) * batch_size < length chunks" if "p < length chunks" for p
  proof -
    have "(p div batch_size) * batch_size \<le> p" by simp
    from this that show ?thesis by (rule le_less_trans)
  qed
  have chunk: "chunks ! p = embed_batches es ! (p div batch_size) ! (p mod batch_size)"
    if "p < length chunks" for p
  proof -
    have "p mod batch_size < batch_size"
      by (simp add: batch_size_def)
    moreover have "(p div batch_size) * batch_size + p mod batch_size = p"
      by simp
    moreover have "(p div batch_size) * batch_size \<le> length chunks"
      using block [OF that] by simp
    ultimately show ?thesis
      by (simp add: batch [OF block [OF that]])
  qed
  have positions: "length vectors = length chunks \<and>
        (\<forall>p<length chunks.
           chunks ! p = embed_batches es ! (p div batch_size) ! (p mod batch_size) \<and>
           vectors ! p = embedded e (embed_batches es ! (p div batch_size)) ! (p mod batch_size))"
    if contract: "\<forall>b\<in>set (embed_batches es). length (embedded e b) = length b"
  proof -
    have c: "length (embedded e (take batch_size (drop (0 + k * batch_size) chunks))) =
           length (take batch_size (drop (0 + k * batch_size) chunks))"
      if "0 + k * batch_size < length chunks" for k
    proof -
      from that have k: "k * batch_size < length chunks" by simp
      from contract member [OF k]
      have "length (embedded e (embed_batches es ! k)) = length (embed_batches es ! k)"
        by blast
      then show ?thesis by (simp add: batch [OF k])
    qed
    from embed_loop_positions [OF assms c]
    have len: "length vectors = length chunks"
      and pos: "\<And>p. p < length chunks \<Longrightarrow> vectors ! p =
        embedded e (take batch_size (drop ((p div batch_size) * batch_size) chunks)) ! (p mod batch_size)"
      by simp_all
    have "vectors ! p = embedded e (embed_batches es ! (p div batch_size)) ! (p mod batch_size)"
      if "p < length chunks" for p
      using pos [OF that] by (simp add: batch [OF block [OF that]])
    with len chunk show ?thesis by simp
  qed
  from es(1-3) n es(5,6) positions show ?thesis by blast
qed

text \<open>250 chunks: three calls, of 100, 100 and 50 chunks; vector 230 is the one the
  third reply has at place 30.\<close>

theorem embedding_in_batches_witness:
  "embed_loop demo (replicate 250 ''c'') 0 [] \<lparr>clock = 0, trace = []\<rparr> =
     (Inr (replicate 250 [1]),
      \<lparr>clock = 9, trace =
         [Called 3 (EmbedDocuments (replicate 100 ''c'')) True,
          Called 6 (EmbedDocuments (replicate 100 ''c'')) True,
          Called 9 (EmbedDocuments (replicate 50 ''c'')) True]\<rparr>) \<and>
   (\<exists>es. [Called 3 (EmbedDocuments (replicate 100 ''c'')) True,
          Called 6 (EmbedDocuments (replicate 100 ''c'')) True,
          Called 9 (EmbedDocuments (replicate 50 ''c'')) True] = [] @ es \<and>
      int (length es) = \<lceil>real (length (replicate 250 ''c'')) / real batch_size\<rceil> \<and>
      length (replicate 250 [1::real]) = length (replicate 250 ''c'') \<and>
      replicate 250 [1::real] ! 230 = embedded demo (embed_batches es ! 2) ! 30)"
proof -
  have run: "embed_loop demo (replicate 250 ''c'') 0 [] \<lparr>clock = 0, trace = []\<rparr> =
     (Inr (replicate 250 [1]),
      \<lparr>clock = 9, trace =
         [Called 3 (EmbedDocuments (replicate 100 ''c'')) True,
          Called 6 (EmbedDocuments (replicate 100 ''c'')) True,
          Called 9 (EmbedDocuments (replicate 50 ''c'')) True]\<rparr>)"
    by (simp add: model_defs demo_defs embed_loop.simps replicate_add [symmetric])
  have contract: "length (embedded demo b) = length b" for b
    by (simp add: embedded_def demo_def)
  from embedding_in_batches [OF run] contract
  obtain es where es: "trace \<lparr>clock = 9, trace =
         [Called 3 (EmbedDocuments (replicate 100 ''c'')) True,
          Called 6 (EmbedDocuments (replicate 100 ''c'')) True,
          Called 9 (EmbedDocuments (replicate 50 ''c'')) True]\<rparr> = trace \<lparr>clock = 0, trace = []\<rparr> @ es"
    "int (length es) = \<lceil>real (length (replicate 250 ''c'')) / real batch_size\<rceil>"
    "length (replicate 250 [1::real]) = length (replicate 250 ''c'')"
    "\<forall>p<length (replicate 250 ''c''). replicate 250 [1::real] ! p =
        embedded demo (embed_batches es ! (p div batch_size)) ! (p mod batch_size)"
    by blast
  from es(4) have "replicate 250 [1::real] ! 230 =
      embedded demo (embed_batches es ! (230 div batch_size)) ! (230 mod batch_size)"
    by simp
  then have "replicate 250 [1::real] ! 230 = embedded demo (embed_batches es ! 2) ! 30"
    by (simp add: batch_size_def)
  with run es(1-3) show ?thesis by auto
qed

end
